theory Spec2Isabelle
  imports Complex_Main "HOL-Library.AList"
begin

section \<open>JavaScript strings\<close>

text \<open>
  A JavaScript string is a sequence of UTF-16 code units and \<open>length\<close> counts code
  units, so a string is modelled as the list of its code units. An emoji outside the
  Basic Multilingual Plane is a surrogate pair: two elements. \<open>js\<close> embeds an ASCII
  literal.
\<close>

type_synonym jsstring = "nat list"

definition js :: "string \<Rightarrow> jsstring" where
  "js s = map of_char s"

text \<open>
  \<open>toLowerCase\<close>. The letters A to Z go to a to z. Two code units outside ASCII have
  a lower case that holds an ASCII letter: U+0130 gives \<open>i\<close> followed by U+0307, and the
  Kelvin sign U+212A gives \<open>k\<close>. Every other code unit is left as it is, so the ASCII
  letters of the result and their places among the other units are the ones JavaScript
  gives, and a search for an ASCII keyword comes out as in the code. The lower case of
  other letters outside ASCII is not modelled.
\<close>

definition lowerUnit :: "nat \<Rightarrow> nat" where
  "lowerUnit c = (if 65 \<le> c \<and> c \<le> 90 then c + 32 else c)"

definition lowerUnits :: "nat \<Rightarrow> jsstring" where
  "lowerUnits c = (if c = 304 then [105, 775] else if c = 8490 then [107] else [lowerUnit c])"

definition toLowerCase :: "jsstring \<Rightarrow> jsstring" where
  "toLowerCase s = concat (map lowerUnits s)"

text \<open>\<open>s.startsWith(p)\<close> and \<open>s.includes(p)\<close> (\<open>includes\<close> is a keyword of Isabelle).\<close>

fun startsWith :: "jsstring \<Rightarrow> jsstring \<Rightarrow> bool" where
  "startsWith s [] = True"
| "startsWith [] (p # ps) = False"
| "startsWith (c # cs) (p # ps) = (c = p \<and> startsWith cs ps)"

fun includesStr :: "jsstring \<Rightarrow> jsstring \<Rightarrow> bool" where
  "includesStr [] p = (p = [])"
| "includesStr (c # cs) p = (startsWith (c # cs) p \<or> includesStr cs p)"

text \<open>\<open>s.substring(0, n)\<close>: a negative end counts as 0, one beyond the end as the length.\<close>

definition substring0 :: "jsstring \<Rightarrow> int \<Rightarrow> jsstring" where
  "substring0 s n = take (nat n) s"

text \<open>
  A thrown value. The handlers read \<open>error instanceof Error ? error.message : 'Unknown
  error'\<close>, so only the message of an \<open>Error\<close> matters.
\<close>

datatype thrown = Error jsstring | NonError

section \<open>Trend aggregation (server/services/trending.ts)\<close>

datatype sentiment = positive | negative | neutral

datatype category = crypto | trading | defi | nft | general

text \<open>
  \<open>volume\<close> and \<open>relevanceScore\<close> are JavaScript numbers. The timeline score divides a
  sum by a count and the merge multiplies by \<open>0.5\<close>, so they are modelled as exact
  rationals; rounding of doubles is not modelled.
\<close>

record TrendingTopic =
  keyword :: jsstring
  volume :: rat
  sentiment :: sentiment
  category :: category
  relevanceScore :: rat

text \<open>
  \<open>new Map<string, TrendingTopic>()\<close>: a JavaScript Map iterates in insertion order and
  \<open>set\<close> on a key that is present replaces the value where it stands. An association
  list with \<open>AList.update\<close> (replace in place, else append) does the same.
\<close>

type_synonym trendMap = "(jsstring \<times> TrendingTopic) list"

text \<open>The first loop of \<open>combineTrends\<close>: \<open>combined.set(trend.keyword, trend)\<close>.\<close>

definition addCryptoTrend :: "trendMap \<Rightarrow> TrendingTopic \<Rightarrow> trendMap" where
  "addCryptoTrend combined trend = AList.update (keyword trend) trend combined"

text \<open>
  The body of the second loop. \<open>existing\<close> is the object held by the map, so the two
  \<open>+=\<close> change the map's entry where it stands.
\<close>

definition mergeTwitterTrend :: "trendMap \<Rightarrow> TrendingTopic \<Rightarrow> trendMap" where
  "mergeTwitterTrend combined trend =
     (case map_of combined (keyword trend) of
        Some existing \<Rightarrow>
          AList.update (keyword trend)
            (existing\<lparr>relevanceScore := relevanceScore existing + relevanceScore trend * (1 / 2),
                      volume := volume existing + volume trend\<rparr>)
            combined
      | None \<Rightarrow> AList.update (keyword trend) trend combined)"

text \<open>The map after both loops of \<open>combineTrends\<close>.\<close>

definition mergedTrends :: "TrendingTopic list \<Rightarrow> TrendingTopic list \<Rightarrow> trendMap" where
  "mergedTrends cryptoTrends twitterTrends =
     foldl mergeTwitterTrend (foldl addCryptoTrend [] cryptoTrends) twitterTrends"

text \<open>
  \<open>.sort((a, b) => b.relevanceScore - a.relevanceScore)\<close>: \<open>Array.prototype.sort\<close> is
  stable, and the comparator puts the larger score first. \<open>sort_key\<close> is a stable
  insertion sort, here on the negated score.
\<close>

definition sortByScoreDesc :: "TrendingTopic list \<Rightarrow> TrendingTopic list" where
  "sortByScoreDesc ts = sort_key (\<lambda>t. - relevanceScore t) ts"

definition combineTrends :: "TrendingTopic list \<Rightarrow> TrendingTopic list \<Rightarrow> TrendingTopic list" where
  "combineTrends cryptoTrends twitterTrends =
     take 20 (sortByScoreDesc (map snd (mergedTrends cryptoTrends twitterTrends)))"

definition getFallbackCryptoTrends :: "TrendingTopic list" where
  "getFallbackCryptoTrends =
     [\<lparr>keyword = js ''bitcoin'', volume = 1000000, sentiment = positive, category = crypto,
       relevanceScore = 95\<rparr>,
      \<lparr>keyword = js ''ethereum'', volume = 800000, sentiment = positive, category = crypto,
       relevanceScore = 90\<rparr>,
      \<lparr>keyword = js ''defi'', volume = 500000, sentiment = neutral, category = defi,
       relevanceScore = 85\<rparr>,
      \<lparr>keyword = js ''trading'', volume = 300000, sentiment = positive, category = trading,
       relevanceScore = 80\<rparr>]"

text \<open>
  What \<open>coinMarketCapService.getTrendingCryptocurrencies(20)\<close> resolves to: the fields
  \<open>getCryptoTrends\<close> reads of each entry. A field that is \<open>undefined\<close> is \<open>None\<close>.
\<close>

record coin =
  coin_name :: jsstring
  volume_24h :: "rat option"
  percent_change_24h :: "rat option"

text \<open>The callback of \<open>trendingCrypto.map\<close>, at position \<open>index\<close>.\<close>

definition cryptoTrend :: "nat \<Rightarrow> coin \<Rightarrow> TrendingTopic" where
  "cryptoTrend index c =
     \<lparr>keyword = toLowerCase (coin_name c),
      volume = (case volume_24h c of None \<Rightarrow> 0 | Some v \<Rightarrow> v),
      sentiment = (case percent_change_24h c of
                     None \<Rightarrow> negative
                   | Some p \<Rightarrow> if p > 0 then positive else negative),
      category = crypto,
      relevanceScore = max 0 (100 - of_nat index * 5)\<rparr>"

text \<open>
  \<open>getCryptoTrends\<close>: the argument is the outcome of the market call, \<open>Inl\<close> when it
  throws; the \<open>catch\<close> returns the fallback list.
\<close>

definition getCryptoTrends :: "thrown + coin list \<Rightarrow> TrendingTopic list" where
  "getCryptoTrends market =
     (case market of
        Inr trendingCrypto \<Rightarrow>
          map (\<lambda>(index, c). cryptoTrend index c) (enumerate 0 trendingCrypto)
      | Inl e \<Rightarrow> getFallbackCryptoTrends)"

text \<open>
  A tweet as the platform client returns it: the fields this program reads. An optional
  field that is absent is \<open>None\<close>.
\<close>

record metrics =
  like_count :: "int option"
  retweet_count :: "int option"

record annotation =
  domain_name :: "jsstring option"
  entity_name :: "jsstring option"

record tweet =
  tweet_id :: jsstring
  author_id :: jsstring
  tweet_text :: jsstring
  public_metrics :: "metrics option"
  context_annotations :: "annotation list option"

text \<open>\<open>(m?.like_count || 0) + (m?.retweet_count || 0)\<close>\<close>

definition orZero :: "int option \<Rightarrow> int" where
  "orZero x = (case x of None \<Rightarrow> 0 | Some n \<Rightarrow> n)"

definition tweetEngagement :: "tweet \<Rightarrow> int" where
  "tweetEngagement tw =
     (case public_metrics tw of
        None \<Rightarrow> 0 + 0
      | Some m \<Rightarrow> orZero (like_count m) + orZero (retweet_count m))"

definition CRYPTO_KEYWORDS :: "jsstring list" where
  "CRYPTO_KEYWORDS =
     [js ''bitcoin'', js ''btc'', js ''ethereum'', js ''eth'', js ''crypto'',
      js ''cryptocurrency'', js ''defi'', js ''nft'', js ''blockchain'', js ''trading'',
      js ''altcoin'', js ''hodl'', js ''web3'', js ''dao'', js ''yield'', js ''staking'',
      js ''mining'', js ''wallet'']"

definition categorizeKeyword :: "jsstring \<Rightarrow> category" where
  "categorizeKeyword k =
     (if k \<in> set [js ''bitcoin'', js ''btc'', js ''ethereum'', js ''eth'', js ''altcoin'']
      then crypto
      else if k \<in> set [js ''defi'', js ''yield'', js ''staking'', js ''dao''] then defi
      else if k \<in> set [js ''nft'', js ''opensea'', js ''mint''] then nft
      else if k \<in> set [js ''trading'', js ''hodl'', js ''pump'', js ''dump''] then trading
      else general)"

text \<open>
  The two maps of \<open>analyzeTwitterTrends\<close>, and the body of its inner loop for one
  keyword: count the keyword and record the tweet's engagement.
\<close>

type_synonym keywordMaps = "(jsstring \<times> nat) list \<times> (jsstring \<times> int list) list"

definition countKeyword :: "jsstring \<Rightarrow> int \<Rightarrow> keywordMaps \<Rightarrow> jsstring \<Rightarrow> keywordMaps" where
  "countKeyword txt engagement maps k =
     (case maps of (keywordCounts, sentimentMap) \<Rightarrow>
        if includesStr txt k
        then (AList.update k
                ((case map_of keywordCounts k of None \<Rightarrow> 0 | Some n \<Rightarrow> n) + 1)
                keywordCounts,
              AList.update k
                ((case map_of sentimentMap k of None \<Rightarrow> [] | Some es \<Rightarrow> es) @ [engagement])
                sentimentMap)
        else (keywordCounts, sentimentMap))"

definition analyzeTweet :: "keywordMaps \<Rightarrow> tweet \<Rightarrow> keywordMaps" where
  "analyzeTweet maps tw =
     foldl (countKeyword (toLowerCase (tweet_text tw)) (tweetEngagement tw)) maps CRYPTO_KEYWORDS"

text \<open>
  The callback of \<open>.map\<close> on the entries that passed the filter. The filter keeps counts
  of at least 2, and every count comes with one recorded engagement, so the division is
  never by zero where the code runs it.
\<close>

definition twitterTrend :: "(jsstring \<times> int list) list \<Rightarrow> jsstring \<times> nat \<Rightarrow> TrendingTopic" where
  "twitterTrend sentimentMap entry =
     (case entry of (k, count) \<Rightarrow>
        let engagements = (case map_of sentimentMap k of None \<Rightarrow> [] | Some es \<Rightarrow> es);
            avgEngagement = of_int (sum_list engagements) / of_nat (length engagements)
        in \<lparr>keyword = k,
            volume = of_nat count,
            sentiment = (if avgEngagement > 10 then positive else neutral),
            category = categorizeKeyword k,
            relevanceScore = min 100 (of_nat count * 10 + avgEngagement)\<rparr>)"

text \<open>
  \<open>analyzeTwitterTrends\<close>: the argument is the outcome of \<open>getHomeTimeline(.., 50)\<close>,
  \<open>Inl\<close> when it throws; the \<open>catch\<close> returns the empty list.
\<close>

definition analyzeTwitterTrends :: "thrown + tweet list \<Rightarrow> TrendingTopic list" where
  "analyzeTwitterTrends timeline =
     (case timeline of
        Inr tweets \<Rightarrow>
          (case foldl analyzeTweet ([], []) tweets of (keywordCounts, sentimentMap) \<Rightarrow>
             take 15 (sortByScoreDesc
               (map (twitterTrend sentimentMap)
                  (filter (\<lambda>(k, count). count \<ge> 2) keywordCounts))))
      | Inl e \<Rightarrow> [])"

text \<open>Steps 1 to 3 of \<open>analyzeTrendingPosts\<close>: the ranked topics of one analysis.\<close>

definition trendingTopics :: "thrown + coin list \<Rightarrow> thrown + tweet list \<Rightarrow> TrendingTopic list" where
  "trendingTopics market timeline =
     combineTrends (getCryptoTrends market) (analyzeTwitterTrends timeline)"

section \<open>Text generation (the AI service)\<close>

subsection \<open>String operations of the generation chain\<close>

text \<open>
  White space and line terminators as ECMAScript defines them: what \<open>trim\<close> removes and
  what the class of white space of a regular expression matches.
\<close>

definition isWhiteSpace :: "nat \<Rightarrow> bool" where
  "isWhiteSpace c =
     (c \<in> set [9, 10, 11, 12, 13, 32, 160, 5760, 8232, 8233, 8239, 8287, 12288, 65279]
      \<or> (8192 \<le> c \<and> c \<le> 8202))"

definition isLineTerminator :: "nat \<Rightarrow> bool" where
  "isLineTerminator c = (c \<in> set [10, 13, 8232, 8233])"

definition trim :: "jsstring \<Rightarrow> jsstring" where
  "trim s = rev (dropWhile isWhiteSpace (rev (dropWhile isWhiteSpace s)))"

text \<open>
  \<open>s.lastIndexOf(' ', position)\<close> for a one-unit search string: the search starts at
  \<open>min(max(position, 0), s.length - 1)\<close> and runs down to 0; the result is \<open>-1\<close> when
  nothing is found.
\<close>

definition lastIndexOf :: "jsstring \<Rightarrow> nat \<Rightarrow> int \<Rightarrow> int" where
  "lastIndexOf s c position =
     (let found = filter (\<lambda>i. s ! i = c) [0 ..< min (nat (max position 0) + 1) (length s)]
      in if found = [] then - 1 else int (last found))"

text \<open>
  The first \<open>replace\<close> of the cleaning: from the start of the text, the shortest run
  of units up to a label \<open>Tweet:\<close>, \<open>Thread:\<close>, \<open>Reply:\<close> or \<open>Meme:\<close>, the label and the
  white space after it, matched with the flag \<open>i\<close>. The lazy \<open>.*?\<close> stops at
  the first position where a label stands; \<open>.\<close> does not match a line terminator, so
  the search ends at the first one. Without the \<open>u\<close> flag, \<open>/i\<close> lets a letter of a
  label match itself in either case and nothing else (\<open>lowerUnit\<close>, not
  \<open>toLowerCase\<close>). The match, which runs on over
  the white space that follows the label, is removed.
\<close>

definition roleLabels :: "jsstring list" where
  "roleLabels = [js ''tweet:'', js ''thread:'', js ''reply:'', js ''meme:'']"

definition afterLabel :: "jsstring \<Rightarrow> jsstring option" where
  "afterLabel s =
     (case filter (\<lambda>l. startsWith (map lowerUnit (take (length l) s)) l) roleLabels of
        [] \<Rightarrow> None
      | l # ls \<Rightarrow> Some (drop (length l) s))"

fun findLabel :: "jsstring \<Rightarrow> jsstring option" where
  "findLabel [] = None"
| "findLabel (c # cs) =
     (case afterLabel (c # cs) of
        Some rest \<Rightarrow> Some rest
      | None \<Rightarrow> if isLineTerminator c then None else findLabel cs)"

definition stripLabel :: "jsstring \<Rightarrow> jsstring" where
  "stripLabel s =
     (case findLabel s of Some rest \<Rightarrow> dropWhile isWhiteSpace rest | None \<Rightarrow> s)"

text \<open>
  \<open>text.replace(/^["'](.*)['"]$/s, '$1')\<close>: a text that starts with a quote and ends with
  a quote, two units at least, loses both.
\<close>

definition isQuote :: "nat \<Rightarrow> bool" where
  "isQuote c = (c = 34 \<or> c = 39)"

definition stripQuotes :: "jsstring \<Rightarrow> jsstring" where
  "stripQuotes s =
     (if length s \<ge> 2 \<and> isQuote (hd s) \<and> isQuote (last s) then butlast (tl s) else s)"

text \<open>
  \<open>text.replace(/^["'](.*)['"]/s, '$1')\<close>, the pattern of the OpenRouter path, which has
  no \<open>$\<close>: the greedy \<open>.*\<close> runs to the last quote of the text; the first unit and that
  quote are removed and what follows the quote stays.
\<close>

fun splitLastQuote :: "jsstring \<Rightarrow> (jsstring \<times> jsstring) option" where
  "splitLastQuote [] = None"
| "splitLastQuote (c # cs) =
     (case splitLastQuote cs of
        Some (before, after) \<Rightarrow> Some (c # before, after)
      | None \<Rightarrow> if isQuote c then Some ([], cs) else None)"

definition stripLeadingQuote :: "jsstring \<Rightarrow> jsstring" where
  "stripLeadingQuote s =
     (case s of
        [] \<Rightarrow> []
      | c # cs \<Rightarrow>
          if isQuote c
          then (case splitLastQuote cs of
                  Some (before, after) \<Rightarrow> before @ after
                | None \<Rightarrow> s)
          else s)"

text \<open>
  The length limit that both provider paths apply, with the cap of each path: cut at
  the last space at or before \<open>cap - 3\<close> when that space lies beyond \<open>0.7 * cap\<close>, else at
  \<open>cap - 3\<close>; trim; append three dots. The product \<open>cap * 0.7\<close> is taken exactly. The
  code takes it in doubles, where for some caps that are multiples of 10 it rounds to
  just below the whole number (\<open>90 * 0.7\<close> is \<open>62.99999999999999\<close>); a last space exactly
  at \<open>0.7 * cap\<close> is then beyond it in the code and not here. Either way the cut is at
  most \<open>cap - 3\<close>, which is all that the properties below use of it.
\<close>

definition applyLengthLimit :: "jsstring \<Rightarrow> int \<Rightarrow> jsstring" where
  "applyLengthLimit generatedText cap =
     (if int (length generatedText) > cap
      then (let cutPoint = cap - 3;
                lastSpace = lastIndexOf generatedText 32 cutPoint;
                cutPoint = (if (of_int lastSpace :: rat) > of_int cap * (7 / 10)
                            then lastSpace else cutPoint)
            in trim (substring0 generatedText cutPoint) @ js ''...'')
      else generatedText)"

subsection \<open>The template fallback\<close>

text \<open>
  The content type. The signature allows four values. \<open>OtherType\<close> stands for a
  string a caller passes beyond them that names no member of the template object, own
  or inherited (\<open>'analysis'\<close> in the trend service): for it \<open>templates[contentType] ||
  templates.tweet\<close> takes the tweet templates. A string that names an inherited member
  (\<open>'constructor'\<close>) is not a value of this type.
\<close>

datatype contentType = Tweet | Thread | Reply | Meme | OtherType

text \<open>
  The template tables with the topic interpolated. An emoji beyond the Basic
  Multilingual Plane is its surrogate pair; the apostrophe is the unit 39.
\<close>

definition tweetTemplates :: "jsstring \<Rightarrow> jsstring list" where
  "tweetTemplates topic =
     [[55357, 56960] @ js '' '' @ topic @ js '' is trending! #crypto #trading'',
      [55357, 56496] @ js '' Exploring '' @ topic @ js '' opportunities #finance'',
      [55357, 56520] @ js '' '' @ topic @ js '' analysis coming soon! #market'',
      [9889] @ js '' '' @ topic @ js '' update: Stay tuned! #crypto'',
      [55356, 57263] @ js '' '' @ topic @ js '' insights #trading #blockchain'']"

definition threadTemplates :: "jsstring \<Rightarrow> jsstring list" where
  "threadTemplates topic =
     [[55358, 56821] @ js '' Let'' @ [39] @ js ''s talk about '' @ topic @ js ''... (1/n)'',
      [55357, 56522] @ js '' '' @ topic @ js '' breakdown thread '' @ [55357, 56391],
      [55357, 56589] @ js '' Deep dive into '' @ topic @ js ''... (1/x)'',
      [55357, 56481] @ js '' '' @ topic @ js '' explained simply... (1/n)'']"

definition replyTemplates :: "jsstring \<Rightarrow> jsstring list" where
  "replyTemplates topic =
     [js ''Great point about '' @ topic @ js ''! '' @ [55357, 56397],
      js ''Interesting perspective on '' @ topic,
      js ''Thanks for sharing about '' @ topic @ js ''!'',
      topic @ js '' is definitely worth discussing'']"

definition memeTemplates :: "jsstring \<Rightarrow> jsstring list" where
  "memeTemplates topic =
     [js ''When '' @ topic @ js '' hits different '' @ [55357, 56834],
      topic @ js '' be like... '' @ [55358, 56596],
      js ''POV: You'' @ [39] @ js ''re explaining '' @ topic @ js '' '' @ [55357, 56520],
      topic @ js '' energy '' @ [55357, 56495]]"

definition templatesFor :: "contentType \<Rightarrow> jsstring \<Rightarrow> jsstring list" where
  "templatesFor ct topic =
     (case ct of
        Tweet \<Rightarrow> tweetTemplates topic
      | Thread \<Rightarrow> threadTemplates topic
      | Reply \<Rightarrow> replyTemplates topic
      | Meme \<Rightarrow> memeTemplates topic
      | OtherType \<Rightarrow> tweetTemplates topic)"

text \<open>
  \<open>generateFallbackContent\<close>. \<open>pick\<close> is a number from the random source:
  \<open>Math.floor(Math.random() * options.length)\<close> is an index below \<open>options.length\<close>, here
  \<open>pick\<close> modulo that length, so every template can be drawn and no index is out of
  range.
\<close>

definition generateFallbackContent :: "jsstring \<Rightarrow> contentType \<Rightarrow> int \<Rightarrow> nat \<Rightarrow> jsstring" where
  "generateFallbackContent topic ct maxLength pick =
     (let options = templatesFor ct topic;
          content = options ! (pick mod length options)
      in if int (length content) > maxLength
         then substring0 content (maxLength - 3) @ js ''...''
         else content)"

subsection \<open>Provider responses\<close>

text \<open>
  A parsed response body. \<open>getProp\<close> reads a property of a value that is not \<open>null\<close>: the
  member of an object, and \<open>undefined\<close> (\<open>None\<close>) on anything else, for the property
  names this program reads. \<open>truthy\<close> is JavaScript's conversion to a boolean.
\<close>

datatype json =
    JNull
  | JBool bool
  | JNum rat
  | JStr jsstring
  | JArr "json list"
  | JObj "(jsstring \<times> json) list"

definition truthy :: "json \<Rightarrow> bool" where
  "truthy v =
     (case v of
        JNull \<Rightarrow> False
      | JBool b \<Rightarrow> b
      | JNum n \<Rightarrow> n \<noteq> 0
      | JStr s \<Rightarrow> s \<noteq> []
      | JArr xs \<Rightarrow> True
      | JObj kvs \<Rightarrow> True)"

definition truthyOpt :: "json option \<Rightarrow> bool" where
  "truthyOpt v = (case v of None \<Rightarrow> False | Some j \<Rightarrow> truthy j)"

definition getProp :: "json \<Rightarrow> jsstring \<Rightarrow> json option" where
  "getProp v k = (case v of JObj kvs \<Rightarrow> map_of kvs k | _ \<Rightarrow> None)"

definition typeError :: thrown where
  "typeError = Error (js ''TypeError'')"

subsection \<open>Hugging Face\<close>

text \<open>
  \<open>callHuggingFaceModel\<close> is the world's answer for a model name: \<open>Inl\<close> when \<open>fetch\<close>
  throws, else the status and the parsed body (\<open>null\<close> when the body does not parse).
  The three calls of \<open>generateWithHuggingFace\<close>, each made when the one before answered
  404, 503 or a falsy body, give the body the rest of the function reads.
\<close>

type_synonym hfWorld = "jsstring \<Rightarrow> thrown + nat \<times> json"

definition tryNextModel :: "nat \<times> json \<Rightarrow> bool" where
  "tryNextModel r = (case r of (status, data) \<Rightarrow> status = 404 \<or> status = 503 \<or> \<not> truthy data)"

definition callModels :: "hfWorld \<Rightarrow> thrown + json" where
  "callModels callHuggingFaceModel =
     (case callHuggingFaceModel (js ''HuggingFaceH4/zephyr-7b-beta'') of
        Inl e \<Rightarrow> Inl e
      | Inr r1 \<Rightarrow>
          (case (if tryNextModel r1
                 then callHuggingFaceModel (js ''meta-llama/Llama-2-7b-chat-hf'')
                 else Inr r1) of
             Inl e \<Rightarrow> Inl e
           | Inr r2 \<Rightarrow>
               (case (if tryNextModel r2 then callHuggingFaceModel (js ''gpt2'') else Inr r2) of
                  Inl e \<Rightarrow> Inl e
                | Inr r3 \<Rightarrow> Inr (snd r3))))"

text \<open>
  The value \<open>generatedText\<close> holds before the cleaning: the \<open>generated_text\<close> of the first
  element of an array, else that of the body, when truthy; else the empty string.
  Reading a property of a first element that is \<open>null\<close> throws.
\<close>

definition extractGeneratedText :: "json \<Rightarrow> thrown + json" where
  "extractGeneratedText data =
     (case data of
        JArr (x # xs) \<Rightarrow>
          (case x of
             JNull \<Rightarrow> Inl typeError
           | _ \<Rightarrow> (case getProp x (js ''generated_text'') of
                     Some g \<Rightarrow> if truthy g then Inr g else Inr (JStr [])
                   | None \<Rightarrow> Inr (JStr [])))
      | _ \<Rightarrow>
          if truthy data
          then (case getProp data (js ''generated_text'') of
                  Some g \<Rightarrow> if truthy g then Inr g else Inr (JStr [])
                | None \<Rightarrow> Inr (JStr []))
          else Inr (JStr []))"

definition promptKeywords :: "jsstring list" where
  "promptKeywords =
     [js ''Generate'', js ''Write'', js ''Create'', js ''Maximum length:'', js ''IMPORTANT:'',
      js ''single tweet'', js ''professional tone'', js ''Use relevant hashtags'',
      js ''content type:'', js ''tone:'', js ''topic:'', js ''instructions:'', js ''prompt:'',
      js ''Here is'', js ''Here are'', js ''Below is'', js ''Following is'']"

definition containsPromptKeywords :: "jsstring \<Rightarrow> bool" where
  "containsPromptKeywords generatedText =
     list_ex (\<lambda>k. includesStr (toLowerCase generatedText) (toLowerCase k)) promptKeywords"

text \<open>
  \<open>shouldUseFallback\<close>. The product \<open>effectiveMaxLength * 1.2\<close> is taken exactly, as
  \<open>cap * 0.7\<close> is in the length limit.
\<close>

definition shouldUseFallback :: "jsstring \<Rightarrow> int \<Rightarrow> bool" where
  "shouldUseFallback generatedText effectiveMaxLength =
     (containsPromptKeywords generatedText
      \<or> (of_nat (length generatedText) :: rat) > of_int effectiveMaxLength * (12 / 10))"

text \<open>
  The end of \<open>generateWithHuggingFace\<close>, reached when no text is left to return: an
  \<open>error\<close> or a \<open>message\<close> of the body is thrown, a body that is a string is returned as
  it is, anything else is thrown. The text of a thrown message is not modelled.
\<close>

definition noGeneratedText :: "json \<Rightarrow> thrown + jsstring" where
  "noGeneratedText data =
     (if truthy data \<and> truthyOpt (getProp data (js ''error''))
      then Inl (Error (js ''Hugging Face API error''))
      else if truthy data \<and> truthyOpt (getProp data (js ''message''))
      then Inl (Error (js ''Hugging Face API message''))
      else (case data of
              JStr d \<Rightarrow> Inr d
            | _ \<Rightarrow> Inl (Error (js ''[AI generation failed]''))))"

text \<open>
  \<open>generateWithHuggingFace\<close>. A truthy \<open>generated_text\<close> that is not a string has no
  \<open>toLowerCase\<close>, so the keyword scan throws.
\<close>

definition generateWithHuggingFace ::
  "hfWorld \<Rightarrow> nat \<Rightarrow> jsstring \<Rightarrow> contentType \<Rightarrow> int \<Rightarrow> thrown + jsstring" where
  "generateWithHuggingFace callHuggingFaceModel pick topic ct maxLength =
     (case callModels callHuggingFaceModel of
        Inl e \<Rightarrow> Inl e
      | Inr data \<Rightarrow>
          (case extractGeneratedText data of
             Inl e \<Rightarrow> Inl e
           | Inr g \<Rightarrow>
               if truthy g
               then (case g of
                       JStr generatedText \<Rightarrow>
                         (let effectiveMaxLength = min maxLength 280;
                              t1 = (if shouldUseFallback generatedText effectiveMaxLength
                                    then generateFallbackContent topic ct effectiveMaxLength pick
                                    else trim (stripQuotes (stripLabel generatedText)));
                              t2 = applyLengthLimit t1 effectiveMaxLength;
                              t3 = (if int (length t2) > maxLength
                                    then substring0 t2 maxLength else t2)
                          in if t3 \<noteq> [] then Inr t3 else noGeneratedText data)
                     | _ \<Rightarrow> Inl typeError)
               else noGeneratedText data))"

subsection \<open>OpenRouter\<close>

text \<open>
  The value of \<open>data.choices && data.choices.length > 0 &&
  data.choices[0].message?.content\<close> when it is truthy, \<open>None\<close> when it is falsy, \<open>Inl\<close>
  when reading it throws. \<open>choices\<close> is an array in every answer of the provider; for
  a string the first element is its first unit, and for an object the members \<open>length\<close>
  and \<open>0\<close> are read, a \<open>length\<close> that is neither a number nor a boolean counting as not
  greater than 0.
\<close>

definition firstChoice :: "json \<Rightarrow> json option option" where
  "firstChoice choices =
     (case choices of
        JArr xs \<Rightarrow> (case xs of [] \<Rightarrow> None | x # rest \<Rightarrow> Some (Some x))
      | JStr s \<Rightarrow> (case s of [] \<Rightarrow> None | c # rest \<Rightarrow> Some (Some (JStr [c])))
      | JObj kvs \<Rightarrow>
          (case map_of kvs (js ''length'') of
             Some (JNum n) \<Rightarrow> if n > 0 then Some (map_of kvs (js ''0'')) else None
           | Some (JBool b) \<Rightarrow> if b then Some (map_of kvs (js ''0'')) else None
           | _ \<Rightarrow> None)
      | _ \<Rightarrow> None)"

definition openRouterContent :: "json \<Rightarrow> thrown + json option" where
  "openRouterContent data =
     (case data of
        JNull \<Rightarrow> Inl typeError
      | _ \<Rightarrow>
          (case getProp data (js ''choices'') of
             None \<Rightarrow> Inr None
           | Some choices \<Rightarrow>
               if \<not> truthy choices then Inr None
               else (case firstChoice choices of
                       None \<Rightarrow> Inr None
                     | Some None \<Rightarrow> Inl typeError
                     | Some (Some JNull) \<Rightarrow> Inl typeError
                     | Some (Some first) \<Rightarrow>
                         (case getProp first (js ''message'') of
                            None \<Rightarrow> Inr None
                          | Some JNull \<Rightarrow> Inr None
                          | Some message \<Rightarrow>
                              (case getProp message (js ''content'') of
                                 None \<Rightarrow> Inr None
                               | Some c \<Rightarrow> if truthy c then Inr (Some c) else Inr None)))))"

text \<open>
  \<open>generateWithOpenRouter\<close>: the argument is the world's answer, \<open>Inl\<close> when \<open>fetch\<close>
  throws, else \<open>response.ok\<close> and the outcome of \<open>response.json()\<close>. A truthy content
  that is not a string has no \<open>trim\<close>.
\<close>

type_synonym orWorld = "thrown + bool \<times> (thrown + json)"

definition generateWithOpenRouter :: "orWorld \<Rightarrow> int \<Rightarrow> thrown + jsstring" where
  "generateWithOpenRouter response maxLength =
     (case response of
        Inl e \<Rightarrow> Inl e
      | Inr (ok, body) \<Rightarrow>
          if \<not> ok then Inl (Error (js ''OpenRouter API error''))
          else (case body of
                  Inl e \<Rightarrow> Inl e
                | Inr data \<Rightarrow>
                    (case openRouterContent data of
                       Inl e \<Rightarrow> Inl e
                     | Inr None \<Rightarrow>
                         Inl (Error (js ''OpenRouter API returned unexpected response format''))
                     | Inr (Some c) \<Rightarrow>
                         (case c of
                            JStr content \<Rightarrow>
                              Inr (applyLengthLimit
                                     (trim (stripLeadingQuote (trim content))) maxLength)
                          | _ \<Rightarrow> Inl typeError))))"

subsection \<open>The chain\<close>

text \<open>
  The keys the service read from the environment, and what the world answers during
  one call of \<open>generateTextContent\<close>: the two providers, and the numbers the random
  source gives the template fallback inside the Hugging Face path and in the \<open>catch\<close>
  branches.
\<close>

record AIService =
  huggingFaceApiKey :: jsstring
  openRouterApiKey :: jsstring

record aiWorld =
  huggingFace :: hfWorld
  openRouter :: orWorld
  hfPick :: nat
  catchPick :: nat

definition noKeysPlaceholder :: jsstring where
  "noKeysPlaceholder =
     js ''[AI generation requires API keys. Please configure Hugging Face or OpenRouter API key to use this feature.]''"

text \<open>
  \<open>generateTextContent\<close>. The result is a sum so that a throw that left the function
  would show as \<open>Inl\<close>. The tone only goes into the prompts sent to the providers.
\<close>

definition generateTextContent ::
  "AIService \<Rightarrow> aiWorld \<Rightarrow> jsstring \<Rightarrow> contentType \<Rightarrow> jsstring \<Rightarrow> int \<Rightarrow> thrown + jsstring" where
  "generateTextContent svc w topic ct tone maxLength =
     (if huggingFaceApiKey svc = [] \<and> openRouterApiKey svc = [] then Inr noKeysPlaceholder
      else if huggingFaceApiKey svc \<noteq> []
      then (case generateWithHuggingFace (huggingFace w) (hfPick w) topic ct maxLength of
              Inr t \<Rightarrow> Inr t
            | Inl e \<Rightarrow>
                if openRouterApiKey svc \<noteq> []
                then (case generateWithOpenRouter (openRouter w) maxLength of
                        Inr t \<Rightarrow> Inr t
                      | Inl e' \<Rightarrow> Inr (generateFallbackContent topic ct maxLength (catchPick w)))
                else Inr (generateFallbackContent topic ct maxLength (catchPick w)))
      else if openRouterApiKey svc \<noteq> []
      then (case generateWithOpenRouter (openRouter w) maxLength of
              Inr t \<Rightarrow> Inr t
            | Inl e \<Rightarrow> Inr (generateFallbackContent topic ct maxLength (catchPick w)))
      else Inr (generateFallbackContent topic ct maxLength (catchPick w)))"

section \<open>The autonomous engine (server/services/autonomous.ts)\<close>

text \<open>
  The numbers of a configuration are JavaScript numbers that the route passes on as the
  request gives them, whole or not, so they are rationals here. \<open>replyCount\<close> only ever
  holds 0 or a successor and is an integer. A \<open>Date\<close> is its time value in
  milliseconds. The field \<open>keywords\<close> is \<open>config_keywords\<close> here (\<open>keywords\<close> is a keyword
  of Isabelle).
\<close>

record AutonomousConfig =
  enabled :: bool
  checkIntervalMinutes :: rat
  maxRepliesPerHour :: rat
  autoReplyToMentions :: bool
  autoEngageWithTimeline :: bool
  engagementThreshold :: rat
  config_keywords :: "jsstring list"

datatype activity_type = timeline_read | mention_reply | auto_post | engagement

record AutonomousActivity =
  act_id :: jsstring
  act_type :: activity_type
  timestamp :: int
  content :: jsstring
  success :: bool
  error :: "jsstring option"

text \<open>The private fields of \<open>AutonomousService\<close>. A timer handle is a number.\<close>

record AutonomousService =
  isRunning :: bool
  intervalId :: "nat option"
  replyCount :: int
  lastResetTime :: int
  activities :: "AutonomousActivity list"

text \<open>
  What the engine does to the world outside its own fields: the calls it issues to the
  platform client and the store, in order, and the interval timers it has armed in the
  runtime, each with the configuration its callback closes over. \<open>timerCounter\<close> is the
  last handle the runtime gave out.
\<close>

datatype external_call =
    ReplyToTweet jsstring jsstring
  | PostTweet jsstring
  | CreatePost jsstring

record system = AutonomousService +
  externalCalls :: "external_call list"
  armedTimers :: "(nat \<times> AutonomousConfig) list"
  timerCounter :: nat

text \<open>
  What the world answers during one action. \<open>newId\<close> and \<open>now\<close> are what
  \<open>generateId()\<close> and \<open>new Date()\<close> give for the record the action appends; \<open>aiResult\<close>
  is the outcome of \<open>aiService.generateTextContent\<close> and \<open>replyResult\<close> the outcome of
  \<open>twitterService.replyToTweet\<close> (\<open>None\<close> when it resolves, \<open>Some e\<close> when it throws
  \<open>e\<close>); the reply call is only issued when the generation has returned.
\<close>

record stamp =
  newId :: jsstring
  now :: int

record attempt = stamp +
  aiResult :: "thrown + jsstring"
  replyResult :: "thrown option"

definition errorMessage :: "thrown \<Rightarrow> jsstring" where
  "errorMessage e = (case e of Error m \<Rightarrow> m | NonError \<Rightarrow> js ''Unknown error'')"

text \<open>The decimal digits of a number, as a template literal prints a length.\<close>

fun showNat :: "nat \<Rightarrow> jsstring" where
  "showNat n = (if n < 10 then [48 + n] else showNat (n div 10) @ [48 + n mod 10])"

declare showNat.simps [simp del]

definition dquote :: jsstring where
  "dquote = [34]"

text \<open>\<open>addActivity\<close>: push, then keep \<open>slice(-100)\<close> when there are more than 100.\<close>

definition addActivity :: "AutonomousActivity \<Rightarrow> 'a AutonomousService_scheme \<Rightarrow> 'a AutonomousService_scheme" where
  "addActivity activity s =
     (let pushed = activities s @ [activity]
      in s\<lparr>activities :=
              (if length pushed > 100 then drop (length pushed - 100) pushed else pushed)\<rparr>)"

text \<open>\<open>xs.slice(0, limit)\<close>: a negative limit counts from the end.\<close>

definition slice0 :: "'a list \<Rightarrow> int \<Rightarrow> 'a list" where
  "slice0 xs limit =
     (if limit < 0 then take (nat (int (length xs) + limit)) xs else take (nat limit) xs)"

text \<open>
  \<open>getRecentActivities\<close>: \<open>Array.prototype.sort\<close> sorts \<open>this.activities\<close> itself, so
  the call returns the slice and leaves the field sorted, newest first.
\<close>

definition getRecentActivities ::
  "int \<Rightarrow> 'a AutonomousService_scheme \<Rightarrow> AutonomousActivity list \<times> 'a AutonomousService_scheme" where
  "getRecentActivities limit s =
     (let sorted = sort_key (\<lambda>a. - timestamp a) (activities s)
      in (slice0 sorted limit, s\<lparr>activities := sorted\<rparr>))"

record status =
  st_isRunning :: bool
  st_replyCount :: int
  st_maxRepliesPerHour :: int
  st_lastResetTime :: int
  st_recentActivities :: "AutonomousActivity list"

definition getStatus :: "'a AutonomousService_scheme \<Rightarrow> status \<times> 'a AutonomousService_scheme" where
  "getStatus s =
     (case getRecentActivities 5 s of (recent, s') \<Rightarrow>
        (\<lparr>st_isRunning = isRunning s,
          st_replyCount = replyCount s,
          st_maxRepliesPerHour = 10,
          st_lastResetTime = lastResetTime s,
          st_recentActivities = recent\<rparr>, s'))"

text \<open>The callback of the constructor's hourly \<open>setInterval\<close>.\<close>

definition hourlyReset :: "int \<Rightarrow> 'a AutonomousService_scheme \<Rightarrow> 'a AutonomousService_scheme" where
  "hourlyReset t s = s\<lparr>replyCount := 0, lastResetTime := t\<rparr>"

subsection \<open>Mention handling\<close>

text \<open>
  The handlers are \<open>async\<close>: an iteration checks the budget, awaits the generation and
  the reply call, and only then counts and records. Each handler below is a call that
  runs alone, from its first statement to its last with no other handler call in
  between; what two iterations do when they overlap is set out after the loops, from
  the same parts.

  The \<open>try\<close>/\<open>catch\<close> inside the loop of \<open>handleMentions\<close>, for one mention, which the
  loop enters after its budget check: generate, reply, then count and record; a throw
  of either call goes to the \<open>catch\<close>, which records the failure. \<open>this.replyCount++\<close>
  reads the counter when the reply has resolved.
\<close>

definition mentionFailed :: "tweet \<Rightarrow> attempt \<Rightarrow> thrown \<Rightarrow> AutonomousActivity" where
  "mentionFailed mention a e =
     \<lparr>act_id = newId a, act_type = mention_reply, timestamp = now a,
      content = js ''Failed to reply to mention: '' @ tweet_id mention,
      success = False, error = Some (errorMessage e)\<rparr>"

definition mentionReplied :: "tweet \<Rightarrow> attempt \<Rightarrow> jsstring \<Rightarrow> AutonomousActivity" where
  "mentionReplied mention a aiResponse =
     \<lparr>act_id = newId a, act_type = mention_reply, timestamp = now a,
      content = js ''Replied to @'' @ author_id mention @ js '': '' @ dquote
                  @ substring0 aiResponse 50 @ js ''...'' @ dquote,
      success = True, error = None\<rparr>"

definition replyToMention :: "system \<Rightarrow> tweet \<times> attempt \<Rightarrow> system" where
  "replyToMention s ma =
     (case ma of (mention, a) \<Rightarrow>
        (case aiResult a of
           Inl e \<Rightarrow> addActivity (mentionFailed mention a e) s
         | Inr aiResponse \<Rightarrow>
             let s1 = s\<lparr>externalCalls :=
                         externalCalls s @ [ReplyToTweet aiResponse (tweet_id mention)]\<rparr>
             in (case replyResult a of
                   Some e \<Rightarrow> addActivity (mentionFailed mention a e) s1
                 | None \<Rightarrow>
                     addActivity (mentionReplied mention a aiResponse)
                       (s1\<lparr>replyCount := replyCount s1 + 1\<rparr>))))"

text \<open>The \<open>for\<close> loop of \<open>handleMentions\<close>, with its \<open>break\<close>.\<close>

fun mentionsLoop :: "AutonomousConfig \<Rightarrow> system \<Rightarrow> (tweet \<times> attempt) list \<Rightarrow> system" where
  "mentionsLoop config s [] = s"
| "mentionsLoop config s (ma # rest) =
     (if of_int (replyCount s) \<ge> maxRepliesPerHour config then s
      else mentionsLoop config (replyToMention s ma) rest)"

text \<open>
  \<open>handleMentions\<close>: the argument is the outcome of \<open>getMentions(.., 5)\<close>, each mention
  with what the world answers when it is handled. A throw of \<open>getMentions\<close> is caught
  and logged.
\<close>

definition handleMentions ::
  "AutonomousConfig \<Rightarrow> thrown + (tweet \<times> attempt) list \<Rightarrow> system \<Rightarrow> system" where
  "handleMentions config fetched s =
     (if of_int (replyCount s) \<ge> maxRepliesPerHour config then s
      else (case fetched of
              Inl e \<Rightarrow> s
            | Inr ms \<Rightarrow> mentionsLoop config s ms))"

text \<open>
  Two mention iterations that overlap. Between the budget check of an iteration and
  its \<open>this.replyCount++\<close> lie the awaits of the generation and of the reply call, and
  nothing keeps a second cycle from starting while one is in flight (a \<open>start\<close> after a
  \<open>stop\<close>, or a timer tick during a long cycle). When the checks of two iterations run
  before either reply has resolved, both read the same counter; the two bodies then run
  to their ends one after the other.
\<close>

definition overlappedMentions ::
  "AutonomousConfig \<Rightarrow> system \<Rightarrow> tweet \<times> attempt \<Rightarrow> tweet \<times> attempt \<Rightarrow> system" where
  "overlappedMentions config s ma1 ma2 =
     (if of_int (replyCount s) \<ge> maxRepliesPerHour config then s
      else replyToMention (replyToMention s ma1) ma2)"

subsection \<open>Timeline engagement\<close>

text \<open>
  One element of \<open>context_annotations\<close>: \<open>domain?.name?.toLowerCase().includes(..)\<close>
  is \<open>undefined\<close>, hence false, when the name is absent.
\<close>

definition nameIncludes :: "jsstring option \<Rightarrow> jsstring \<Rightarrow> bool" where
  "nameIncludes name w =
     (case name of None \<Rightarrow> False | Some n \<Rightarrow> includesStr (toLowerCase n) w)"

definition cryptoAnnotation :: "annotation \<Rightarrow> bool" where
  "cryptoAnnotation an =
     (nameIncludes (domain_name an) (js ''crypto'')
      \<or> nameIncludes (domain_name an) (js ''finance'')
      \<or> nameIncludes (entity_name an) (js ''bitcoin'')
      \<or> nameIncludes (entity_name an) (js ''ethereum''))"

definition shouldEngageWithTweet :: "tweet \<Rightarrow> AutonomousConfig \<Rightarrow> bool" where
  "shouldEngageWithTweet tw config =
     (if (case public_metrics tw of
            None \<Rightarrow> False
          | Some m \<Rightarrow>
              of_int (orZero (like_count m) + orZero (retweet_count m))
                < engagementThreshold config)
      then False
      else
        (let tweetText = toLowerCase (tweet_text tw);
             hasRelevantKeywords =
               list_ex (\<lambda>k. includesStr tweetText (toLowerCase k)) (config_keywords config);
             hasCryptoContext =
               (case context_annotations tw of
                  None \<Rightarrow> False
                | Some ans \<Rightarrow> list_ex cryptoAnnotation ans)
         in hasRelevantKeywords \<or> hasCryptoContext))"

definition engaged :: "attempt \<Rightarrow> jsstring \<Rightarrow> AutonomousActivity" where
  "engaged a aiResponse =
     \<lparr>act_id = newId a, act_type = engagement, timestamp = now a,
      content = js ''Engaged with timeline tweet: '' @ dquote
                  @ substring0 aiResponse 50 @ js ''...'' @ dquote,
      success = True, error = None\<rparr>"

text \<open>
  The \<open>try\<close>/\<open>catch\<close> inside the loop of \<open>handleTimelineEngagement\<close>, for one tweet:
  the check of the tweet and of the budget, and behind it the generation, the reply,
  the count and the record. Its \<open>catch\<close> only logs.
\<close>

definition engageWithTweet :: "AutonomousConfig \<Rightarrow> system \<Rightarrow> tweet \<times> attempt \<Rightarrow> system" where
  "engageWithTweet config s ta =
     (case ta of (tw, a) \<Rightarrow>
        if shouldEngageWithTweet tw config \<and> of_int (replyCount s) < maxRepliesPerHour config
        then (case aiResult a of
                Inl e \<Rightarrow> s
              | Inr aiResponse \<Rightarrow>
                  let s1 = s\<lparr>externalCalls :=
                              externalCalls s @ [ReplyToTweet aiResponse (tweet_id tw)]\<rparr>
                  in (case replyResult a of
                        Some e \<Rightarrow> s1
                      | None \<Rightarrow>
                          addActivity (engaged a aiResponse)
                            (s1\<lparr>replyCount := replyCount s1 + 1\<rparr>)))
        else s)"

definition timelineRead :: "stamp \<Rightarrow> nat \<Rightarrow> AutonomousActivity" where
  "timelineRead st n =
     \<lparr>act_id = newId st, act_type = timeline_read, timestamp = now st,
      content = js ''Analyzed '' @ showNat n @ js '' timeline tweets'',
      success = True, error = None\<rparr>"

text \<open>
  \<open>handleTimelineEngagement\<close>: the argument is the outcome of
  \<open>getHomeTimeline(.., 10)\<close>, each tweet with what the world answers when it is handled,
  and the stamp of the closing \<open>timeline_read\<close> record.
\<close>

definition handleTimelineEngagement ::
  "AutonomousConfig \<Rightarrow> thrown + (tweet \<times> attempt) list \<times> stamp \<Rightarrow> system \<Rightarrow> system" where
  "handleTimelineEngagement config fetched s =
     (case fetched of
        Inl e \<Rightarrow> s
      | Inr (tws, st) \<Rightarrow>
          addActivity (timelineRead st (length tws)) (foldl (engageWithTweet config) s tws))"

subsection \<open>Autonomous posts and the cycle\<close>

definition autonomousTopics :: "jsstring list" where
  "autonomousTopics =
     [js ''Bitcoin market analysis'', js ''Crypto trading insights'', js ''DeFi opportunities'',
      js ''Market sentiment analysis'', js ''Technical analysis update'',
      js ''Blockchain technology trends'']"

text \<open>
  What the world answers during \<open>generateAutonomousContent\<close>: the generation (which is
  given the topic), \<open>postTweet\<close> and \<open>storage.createPost\<close>. \<open>topicIndex\<close> is a
  number the random source gives: \<open>Math.floor(Math.random() * topics.length)\<close> is an
  index below \<open>topics.length\<close>, here \<open>topicIndex\<close> modulo that length.
\<close>

record posting = stamp +
  topicIndex :: nat
  postAi :: "jsstring \<Rightarrow> thrown + jsstring"
  postResult :: "thrown option"
  storeResult :: "thrown option"

definition autoPostFailed :: "posting \<Rightarrow> thrown \<Rightarrow> AutonomousActivity" where
  "autoPostFailed p e =
     \<lparr>act_id = newId p, act_type = auto_post, timestamp = now p,
      content = js ''Failed to generate autonomous content'',
      success = False, error = Some (errorMessage e)\<rparr>"

definition autoPosted :: "posting \<Rightarrow> jsstring \<Rightarrow> AutonomousActivity" where
  "autoPosted p aiContent =
     \<lparr>act_id = newId p, act_type = auto_post, timestamp = now p,
      content = js ''Posted autonomous content: '' @ dquote
                  @ substring0 aiContent 50 @ js ''...'' @ dquote,
      success = True, error = None\<rparr>"

definition generateAutonomousContent :: "posting \<Rightarrow> system \<Rightarrow> system" where
  "generateAutonomousContent p s =
     (let randomTopic = autonomousTopics ! (topicIndex p mod length autonomousTopics)
      in (case postAi p randomTopic of
            Inl e \<Rightarrow> addActivity (autoPostFailed p e) s
          | Inr aiContent \<Rightarrow>
              let s1 = s\<lparr>externalCalls := externalCalls s @ [PostTweet aiContent]\<rparr>
              in (case postResult p of
                    Some e \<Rightarrow> addActivity (autoPostFailed p e) s1
                  | None \<Rightarrow>
                      let s2 = s1\<lparr>externalCalls := externalCalls s1 @ [CreatePost aiContent]\<rparr>
                      in (case storeResult p of
                            Some e \<Rightarrow> addActivity (autoPostFailed p e) s2
                          | None \<Rightarrow> addActivity (autoPosted p aiContent) s2))))"

text \<open>
  What the world answers during one cycle. \<open>userResult\<close> is the outcome of
  \<open>storage.getUser\<close>: \<open>Inr True\<close> when the user and both tokens are there.
  \<open>randomValue\<close> is the value of \<open>Math.random()\<close> compared with \<open>0.3\<close>; \<open>failStamp\<close>
  stamps the record of the outer \<open>catch\<close>.
\<close>

record cycle =
  userResult :: "thrown + bool"
  mentionsResult :: "thrown + (tweet \<times> attempt) list"
  timelineResult :: "thrown + (tweet \<times> attempt) list \<times> stamp"
  randomValue :: rat
  postingResult :: posting
  failStamp :: stamp

definition cycleFailed :: "stamp \<Rightarrow> thrown \<Rightarrow> AutonomousActivity" where
  "cycleFailed st e =
     \<lparr>act_id = newId st, act_type = auto_post, timestamp = now st,
      content = js ''Autonomous cycle failed'',
      success = False, error = Some (errorMessage e)\<rparr>"

definition runAutonomousCycle :: "AutonomousConfig \<Rightarrow> cycle \<Rightarrow> system \<Rightarrow> system" where
  "runAutonomousCycle config w s =
     (case userResult w of
        Inl e \<Rightarrow> addActivity (cycleFailed (failStamp w) e) s
      | Inr found \<Rightarrow>
          if \<not> found then s
          else
            (let s1 = (if autoReplyToMentions config
                       then handleMentions config (mentionsResult w) s else s);
                 s2 = (if autoEngageWithTimeline config
                       then handleTimelineEngagement config (timelineResult w) s1 else s1)
             in if randomValue w < 3 / 10
                then generateAutonomousContent (postingResult w) s2 else s2))"

subsection \<open>Starting and stopping\<close>

text \<open>
  \<open>start\<close> is an \<open>async\<close> function: it runs up to \<open>await this.runAutonomousCycle(..)\<close>,
  and what follows the \<open>await\<close> runs when the first cycle has finished. The cycle
  itself awaits the store, the platform and its own sleeps, and while it waits the
  runtime serves other requests: a \<open>stop()\<close> can run between the two halves of \<open>start\<close>.
  \<open>stop\<close> writes \<open>isRunning\<close> and \<open>intervalId\<close> only and a cycle reads and writes neither,
  so a \<open>stop()\<close> in the middle of the cycle is a \<open>stop()\<close> just before it.

  \<open>startBegin\<close> is the part before the \<open>await\<close>; it says whether the first cycle is to
  run. \<open>startResume\<close> is the part after it.
\<close>

definition startBegin :: "AutonomousConfig \<Rightarrow> system \<Rightarrow> system \<times> bool" where
  "startBegin config s =
     (if isRunning s then (s, False)
      else if \<not> enabled config then (s, False)
      else (s\<lparr>isRunning := True\<rparr>, True))"

definition setInterval :: "AutonomousConfig \<Rightarrow> system \<Rightarrow> nat \<times> system" where
  "setInterval config s =
     (let h = timerCounter s + 1
      in (h, s\<lparr>armedTimers := armedTimers s @ [(h, config)], timerCounter := h\<rparr>))"

definition clearInterval :: "nat \<Rightarrow> system \<Rightarrow> system" where
  "clearInterval h s = s\<lparr>armedTimers := filter (\<lambda>(h', c). h' \<noteq> h) (armedTimers s)\<rparr>"

definition startResume :: "AutonomousConfig \<Rightarrow> system \<Rightarrow> system" where
  "startResume config s =
     (case setInterval config s of (h, s') \<Rightarrow> s'\<lparr>intervalId := Some h\<rparr>)"

text \<open>A call of \<open>start\<close> that nothing interrupts.\<close>

definition start :: "AutonomousConfig \<Rightarrow> cycle \<Rightarrow> system \<Rightarrow> system" where
  "start config w s =
     (case startBegin config s of
        (s1, True) \<Rightarrow> startResume config (runAutonomousCycle config w s1)
      | (s1, False) \<Rightarrow> s1)"

definition stop :: "system \<Rightarrow> system" where
  "stop s =
     (if \<not> isRunning s then s
      else
        (let s1 = s\<lparr>isRunning := False\<rparr>
         in (case intervalId s1 of
               Some h \<Rightarrow> (clearInterval h s1)\<lparr>intervalId := None\<rparr>
             | None \<Rightarrow> s1)))"

text \<open>
  The runtime fires the interval timer \<open>h\<close>: when it is armed, its callback runs a cycle
  with the configuration it closed over.
\<close>

definition timerFires :: "nat \<Rightarrow> cycle \<Rightarrow> system \<Rightarrow> system" where
  "timerFires h w s =
     (case map_of (armedTimers s) h of
        Some config \<Rightarrow> runAutonomousCycle config w s
      | None \<Rightarrow> s)"

text \<open>The engine as the module creates it: \<open>new AutonomousService()\<close> at time \<open>t\<close>.\<close>

definition newService :: "int \<Rightarrow> system" where
  "newService t =
     \<lparr>isRunning = False, intervalId = None, replyCount = 0, lastResetTime = t,
      activities = [], externalCalls = [], armedTimers = [], timerCounter = 0\<rparr>"


subsection \<open>Sequences of handler calls\<close>

text \<open>
  One call of a handler with what the world answers during it, and a sequence of such
  calls on the same configuration, each run to its end before the next starts, with no
  hourly reset in between.
\<close>

datatype handlerCall =
    MentionsCall "thrown + (tweet \<times> attempt) list"
  | TimelineCall "thrown + (tweet \<times> attempt) list \<times> stamp"

fun runCall :: "AutonomousConfig \<Rightarrow> system \<Rightarrow> handlerCall \<Rightarrow> system" where
  "runCall config s (MentionsCall fetched) = handleMentions config fetched s"
| "runCall config s (TimelineCall fetched) = handleTimelineEngagement config fetched s"

definition runCalls :: "AutonomousConfig \<Rightarrow> system \<Rightarrow> handlerCall list \<Rightarrow> system" where
  "runCalls config s calls = foldl (runCall config) s calls"

section \<open>Concrete inputs\<close>

text \<open>The timeline topic and a tweet of the trend scenario.\<close>

definition defiTimelineTopic :: TrendingTopic where
  "defiTimelineTopic =
     \<lparr>keyword = js ''defi'', volume = 3, sentiment = positive, category = defi,
      relevanceScore = 50\<rparr>"

definition defiTweet :: tweet where
  "defiTweet =
     \<lparr>tweet_id = js ''1'', author_id = js ''7'', tweet_text = js ''DeFi summer'',
      public_metrics = Some \<lparr>like_count = Some 15, retweet_count = Some 5\<rparr>,
      context_annotations = None\<rparr>"

text \<open>The configuration the route builds from an empty request body.\<close>

definition defaultConfig :: AutonomousConfig where
  "defaultConfig =
     \<lparr>enabled = True, checkIntervalMinutes = 15, maxRepliesPerHour = 10,
      autoReplyToMentions = True, autoEngageWithTimeline = True, engagementThreshold = 5,
      config_keywords = [js ''crypto'', js ''bitcoin'', js ''ethereum'', js ''trading'',
                         js ''defi'', js ''nft'', js ''blockchain'']\<rparr>"

definition alphaConfig :: AutonomousConfig where
  "alphaConfig = defaultConfig\<lparr>maxRepliesPerHour := 1, config_keywords := [js ''alpha'']\<rparr>"

definition alphaTweet :: tweet where
  "alphaTweet =
     \<lparr>tweet_id = js ''1001'', author_id = js ''77'', tweet_text = js ''Alpha is rising'',
      public_metrics = Some \<lparr>like_count = Some 30, retweet_count = Some 20\<rparr>,
      context_annotations = None\<rparr>"

text \<open>
  An action at time \<open>t\<close> whose generation returns \<open>gm\<close>: the platform accepts the reply,
  or refuses it with an error.
\<close>

definition repliedAttempt :: "int \<Rightarrow> attempt" where
  "repliedAttempt t =
     \<lparr>newId = js ''id'' @ showNat (nat t), now = t, aiResult = Inr (js ''gm''),
      replyResult = None\<rparr>"

definition refusedAttempt :: "int \<Rightarrow> attempt" where
  "refusedAttempt t =
     \<lparr>newId = js ''id'' @ showNat (nat t), now = t, aiResult = Inr (js ''gm''),
      replyResult = Some (Error (js ''429''))\<rparr>"

definition stampAt :: "int \<Rightarrow> stamp" where
  "stampAt t = \<lparr>newId = js ''id'' @ showNat (nat t), now = t\<rparr>"

text \<open>A cap that is not a whole number, and calls with two and three mentions.\<close>

definition fractionalConfig :: AutonomousConfig where
  "fractionalConfig = defaultConfig\<lparr>maxRepliesPerHour := 5 / 2\<rparr>"

definition twoMentions :: handlerCall where
  "twoMentions =
     MentionsCall (Inr [(alphaTweet, repliedAttempt 1), (alphaTweet, repliedAttempt 2)])"

definition threeMentions :: handlerCall where
  "threeMentions =
     MentionsCall
       (Inr [(alphaTweet, repliedAttempt 1), (alphaTweet, repliedAttempt 2),
             (alphaTweet, repliedAttempt 3)])"

definition twoAlphaTweets :: handlerCall where
  "twoAlphaTweets =
     TimelineCall
       (Inr ([(alphaTweet, repliedAttempt 1), (alphaTweet, repliedAttempt 2)], stampAt 3))"

text \<open>
  A history at capacity: 100 records appended in the order of their timestamps 1 to
  100, the oldest first.
\<close>

definition activityAt :: "int \<Rightarrow> AutonomousActivity" where
  "activityAt t =
     \<lparr>act_id = js ''id'' @ showNat (nat t), act_type = timeline_read, timestamp = t,
      content = js ''Analyzed 0 timeline tweets'', success = True, error = None\<rparr>"

definition fullHistory :: system where
  "fullHistory = (newService 0)\<lparr>activities := map activityAt [1..100]\<rparr>"

text \<open>
  A cycle at time \<open>t\<close> in which the credentials are found, no mention and no timeline
  tweet is fetched and no autonomous post is drawn: it appends the \<open>timeline_read\<close>
  record and nothing else.
\<close>

definition quietPosting :: posting where
  "quietPosting =
     \<lparr>newId = js ''id0'', now = 0, topicIndex = 0, postAi = (\<lambda>topic. Inr topic),
      postResult = None, storeResult = None\<rparr>"

definition quietCycle :: "int \<Rightarrow> cycle" where
  "quietCycle t =
     \<lparr>userResult = Inr True, mentionsResult = Inr [], timelineResult = Inr ([], stampAt t),
      randomValue = 1 / 2, postingResult = quietPosting, failStamp = stampAt t\<rparr>"

text \<open>
  \<open>start\<close> on a fresh engine, with \<open>stop()\<close> called while the first cycle is in flight:
  the first half of \<open>start\<close>, then \<open>stop\<close>, then the cycle, then the second half of
  \<open>start\<close>.
\<close>

definition stoppedDuringFirstCycle :: system where
  "stoppedDuringFirstCycle =
     startResume defaultConfig
       (runAutonomousCycle defaultConfig (quietCycle 1)
          (stop (fst (startBegin defaultConfig (newService 0)))))"

text \<open>
  Services with no key and with the Hugging Face key only; a Hugging Face body that
  carries the text \<open>t\<close>; and worlds in which Hugging Face echoes its instructions,
  returns 22 units where 20 were asked for, or cannot be reached.
\<close>

definition noKeys :: AIService where
  "noKeys = \<lparr>huggingFaceApiKey = [], openRouterApiKey = []\<rparr>"

definition hfOnly :: AIService where
  "hfOnly = \<lparr>huggingFaceApiKey = js ''hf_key'', openRouterApiKey = []\<rparr>"

definition generated :: "jsstring \<Rightarrow> json" where
  "generated t = JArr [JObj [(js ''generated_text'', JStr t)]]"

definition echoWorld :: "nat \<Rightarrow> nat \<Rightarrow> aiWorld" where
  "echoWorld p q =
     \<lparr>huggingFace = (\<lambda>model. Inr (200, generated (js ''Generate a tweet about Bitcoin''))),
      openRouter = Inl NonError, hfPick = p, catchPick = q\<rparr>"

definition longWorld :: aiWorld where
  "longWorld =
     \<lparr>huggingFace = (\<lambda>model. Inr (200, generated (js ''aaaaaaaaaa bbbbbbbbbbb''))),
      openRouter = Inl NonError, hfPick = 0, catchPick = 0\<rparr>"


section \<open>Properties of the trend aggregation\<close>

lemma addCrypto_other:
  "k \<notin> keyword ` set cs \<Longrightarrow> map_of (foldl addCryptoTrend m cs) k = map_of m k"
  by (induction cs arbitrary: m) (auto simp: addCryptoTrend_def update_conv')

lemma addCrypto_in:
  "distinct (map keyword cs) \<Longrightarrow> c \<in> set cs \<Longrightarrow> map_of (foldl addCryptoTrend m cs) (keyword c) = Some c"
proof (induction cs arbitrary: m)
  case Nil
  then show ?case by simp
next
  case (Cons x xs)
  show ?case
  proof (cases "c = x")
    case True
    with Cons.prems have "keyword x \<notin> keyword ` set xs" by auto
    then have "map_of (foldl addCryptoTrend (addCryptoTrend m x) xs) (keyword x)
                 = map_of (addCryptoTrend m x) (keyword x)"
      by (rule addCrypto_other)
    also have "\<dots> = Some x" by (simp add: addCryptoTrend_def update_conv')
    finally show ?thesis using True by simp
  next
    case False
    with Cons show ?thesis by simp
  qed
qed

lemma mergeTwitter_other:
  "k \<notin> keyword ` set ts \<Longrightarrow> map_of (foldl mergeTwitterTrend m ts) k = map_of m k"
  by (induction ts arbitrary: m)
     (auto simp: mergeTwitterTrend_def update_conv' split: option.splits)

lemma mergeTwitter_in:
  "distinct (map keyword ts) \<Longrightarrow> t \<in> set ts \<Longrightarrow>
   map_of (foldl mergeTwitterTrend m ts) (keyword t) =
     (case map_of m (keyword t) of
        Some existing \<Rightarrow> Some (existing\<lparr>relevanceScore := relevanceScore existing + relevanceScore t * (1 / 2),
                      volume := volume existing + volume t\<rparr>)
      | None \<Rightarrow> Some t)"
proof (induction ts arbitrary: m)
  case Nil
  then show ?case by simp
next
  case (Cons x xs)
  show ?case
  proof (cases "t = x")
    case True
    with Cons.prems have "keyword x \<notin> keyword ` set xs" by auto
    then have "map_of (foldl mergeTwitterTrend (mergeTwitterTrend m x) xs) (keyword x)
                 = map_of (mergeTwitterTrend m x) (keyword x)"
      by (rule mergeTwitter_other)
    also have "\<dots> = (case map_of m (keyword x) of
        Some existing \<Rightarrow> Some (existing\<lparr>relevanceScore := relevanceScore existing + relevanceScore x * (1 / 2),
                      volume := volume existing + volume x\<rparr>)
      | None \<Rightarrow> Some x)"
      by (simp add: mergeTwitterTrend_def update_conv' split: option.splits)
    finally show ?thesis unfolding True by simp
  next
    case False
    with Cons.prems have tin: "t \<in> set xs" and d: "distinct (map keyword xs)"
      and ne: "keyword x \<noteq> keyword t" by auto
    have "map_of (mergeTwitterTrend m x) (keyword t) = map_of m (keyword t)"
      using ne by (simp add: mergeTwitterTrend_def update_conv' split: option.splits)
    then show ?thesis using Cons.IH[OF d tin, of "mergeTwitterTrend m x"] by simp
  qed
qed

lemma addCrypto_distinct:
  "distinct (map fst m) \<Longrightarrow> distinct (map fst (foldl addCryptoTrend m cs))"
  by (induction cs arbitrary: m) (simp_all add: addCryptoTrend_def distinct_update)

lemma mergeTwitter_distinct:
  "distinct (map fst m) \<Longrightarrow> distinct (map fst (foldl mergeTwitterTrend m ts))"
  by (induction ts arbitrary: m) (simp_all add: mergeTwitterTrend_def distinct_update split: option.splits)

lemma mergedTrends_distinct: "distinct (map fst (mergedTrends cs ts))"
  by (simp add: mergedTrends_def mergeTwitter_distinct addCrypto_distinct)

lemma set_update_subset: "set (AList.update k v al) \<subseteq> insert (k, v) (set al)"
  by (induction al) auto

lemma addCrypto_keys:
  "\<forall>(k, v)\<in>set m. keyword v = k \<Longrightarrow> \<forall>(k, v)\<in>set (foldl addCryptoTrend m cs). keyword v = k"
proof (induction cs arbitrary: m)
  case Nil
  then show ?case by simp
next
  case (Cons x xs)
  have "\<forall>(k, v)\<in>set (addCryptoTrend m x). keyword v = k"
    using Cons.prems set_update_subset[of "keyword x" x m]
    by (auto simp: addCryptoTrend_def)
  then show ?case using Cons.IH by simp
qed

lemma mergeTwitter_keys:
  "\<forall>(k, v)\<in>set m. keyword v = k \<Longrightarrow> \<forall>(k, v)\<in>set (foldl mergeTwitterTrend m ts). keyword v = k"
proof (induction ts arbitrary: m)
  case Nil
  then show ?case by simp
next
  case (Cons x xs)
  have "\<forall>(k, v)\<in>set (mergeTwitterTrend m x). keyword v = k"
  proof (cases "map_of m (keyword x)")
    case None
    then show ?thesis
      using Cons.prems set_update_subset[of "keyword x" x m]
      by (auto simp: mergeTwitterTrend_def)
  next
    case (Some e)
    then have "(keyword x, e) \<in> set m" by (rule map_of_SomeD)
    with Cons.prems have "keyword e = keyword x" by auto
    then show ?thesis
      using Some Cons.prems
        set_update_subset[of "keyword x" "e\<lparr>relevanceScore := relevanceScore e + relevanceScore x * (1 / 2),
                      volume := volume e + volume x\<rparr>" m]
      by (auto simp: mergeTwitterTrend_def)
  qed
  then show ?case using Cons.IH by simp
qed

lemma mergedTrends_keys: "(k, v) \<in> set (mergedTrends cs ts) \<Longrightarrow> keyword v = k"
  using mergeTwitter_keys[OF addCrypto_keys[of "[]" cs], of ts]
  by (auto simp: mergedTrends_def)

lemma mergedTrends_entry:
  assumes "e \<in> snd ` set (mergedTrends cs ts)"
  shows "map_of (mergedTrends cs ts) (keyword e) = Some e"
proof -
  from assms obtain k where "(k, e) \<in> set (mergedTrends cs ts)" by auto
  moreover from this have "keyword e = k" by (rule mergedTrends_keys)
  ultimately show ?thesis using mergedTrends_distinct[of cs ts] by simp
qed

lemma sortByScoreDesc_sorted:
  "sorted_wrt (\<lambda>a b. relevanceScore b \<le> relevanceScore a) (sortByScoreDesc xs)"
proof -
  have "sorted (map (\<lambda>t. - relevanceScore t) (sortByScoreDesc xs))"
    unfolding sortByScoreDesc_def by (rule sorted_sort_key)
  then show ?thesis
    by (simp add: sorted_map) 
qed

lemma combineTrends_sorted:
  "sorted_wrt (\<lambda>a b. relevanceScore b \<le> relevanceScore a) (combineTrends cs ts)"
  unfolding combineTrends_def by (rule sorted_wrt_take[OF sortByScoreDesc_sorted])

lemma combineTrends_set: "set (combineTrends cs ts) \<subseteq> snd ` set (mergedTrends cs ts)"
proof -
  have "set (combineTrends cs ts) \<subseteq> set (sortByScoreDesc (map snd (mergedTrends cs ts)))"
    unfolding combineTrends_def by (rule set_take_subset)
  then show ?thesis by (simp add: sortByScoreDesc_def)
qed

lemma combineTrends_length: "length (combineTrends cs ts) = min 20 (length (mergedTrends cs ts))"
  by (simp add: combineTrends_def sortByScoreDesc_def min.commute)


lemma addCrypto_keyset:
  "fst ` set (foldl addCryptoTrend m cs) = fst ` set m \<union> keyword ` set cs"
proof (induction cs arbitrary: m)
  case Nil
  then show ?case by simp
next
  case (Cons x xs)
  have "fst ` set (addCryptoTrend m x) = insert (keyword x) (fst ` set m)"
    using dom_update[of "keyword x" x m] by (simp add: addCryptoTrend_def)
  then show ?case using Cons.IH[of "addCryptoTrend m x"] by auto
qed

lemma mergeTwitter_keyset:
  "fst ` set (foldl mergeTwitterTrend m ts) = fst ` set m \<union> keyword ` set ts"
proof (induction ts arbitrary: m)
  case Nil
  then show ?case by simp
next
  case (Cons x xs)
  have "fst ` set (mergeTwitterTrend m x) = insert (keyword x) (fst ` set m)"
    by (simp add: mergeTwitterTrend_def dom_update split: option.splits)
  then show ?case using Cons.IH[of "mergeTwitterTrend m x"] by auto
qed

lemma mergedTrends_keyset:
  "fst ` set (mergedTrends cs ts) = keyword ` (set cs \<union> set ts)"
  by (simp add: mergedTrends_def mergeTwitter_keyset addCrypto_keyset image_Un)

lemma mergedTrends_length:
  "length (mergedTrends cs ts) = card (keyword ` (set cs \<union> set ts))"
proof -
  have "length (mergedTrends cs ts) = length (map fst (mergedTrends cs ts))" by simp
  also have "\<dots> = card (set (map fst (mergedTrends cs ts)))"
    using mergedTrends_distinct[of cs ts] by (rule distinct_card[symmetric])
  also have "\<dots> = card (keyword ` (set cs \<union> set ts))"
    by (simp add: mergedTrends_keyset)
  finally show ?thesis .
qed

lemma mergedTrends_values_keyword:
  "map keyword (map snd (mergedTrends cs ts)) = map fst (mergedTrends cs ts)"
  using mergedTrends_keys[of _ _ cs ts] by (auto intro!: map_cong)

lemma combineTrends_distinct: "distinct (map keyword (combineTrends cs ts))"
proof -
  have d: "distinct (map keyword (map snd (mergedTrends cs ts)))"
    unfolding mergedTrends_values_keyword by (rule mergedTrends_distinct)
  then have "distinct (map snd (mergedTrends cs ts))"
    and "inj_on keyword (set (map snd (mergedTrends cs ts)))"
    by (simp_all only: distinct_map)
  then have "distinct (sortByScoreDesc (map snd (mergedTrends cs ts)))"
    and "inj_on keyword (set (sortByScoreDesc (map snd (mergedTrends cs ts))))"
    by (simp_all add: sortByScoreDesc_def)
  then have "distinct (map keyword (sortByScoreDesc (map snd (mergedTrends cs ts))))"
    by (simp only: distinct_map)
  then show ?thesis
    unfolding combineTrends_def take_map[symmetric] by (rule distinct_take)
qed

lemma combineTrends_top:
  assumes "map_of (mergedTrends cs ts) k = Some e"
  shows "e \<in> set (combineTrends cs ts)
       \<or> (length (combineTrends cs ts) = 20
          \<and> (\<forall>r\<in>set (combineTrends cs ts). relevanceScore e \<le> relevanceScore r))"
proof (cases "e \<in> set (combineTrends cs ts)")
  case True
  then show ?thesis by simp
next
  case False
  define S where "S = sortByScoreDesc (map snd (mergedTrends cs ts))"
  have "(k, e) \<in> set (mergedTrends cs ts)" using assms by (rule map_of_SomeD)
  then have "e \<in> set S" by (force simp: S_def sortByScoreDesc_def)
  then have "e \<in> set (take 20 S) \<or> e \<in> set (drop 20 S)"
    using append_take_drop_id[of 20 S] by (metis Un_iff set_append)
  with False have dr: "e \<in> set (drop 20 S)" by (simp add: combineTrends_def S_def)
  then have "20 < length S" by (cases "20 < length S") auto
  then have len: "length (combineTrends cs ts) = 20" by (simp add: combineTrends_def S_def)
  have "sorted_wrt (\<lambda>a b. relevanceScore b \<le> relevanceScore a) (take 20 S @ drop 20 S)"
    unfolding append_take_drop_id S_def by (rule sortByScoreDesc_sorted)
  then have "\<forall>r\<in>set (take 20 S). \<forall>x\<in>set (drop 20 S). relevanceScore x \<le> relevanceScore r"
    unfolding sorted_wrt_append by blast
  with dr have "\<forall>r\<in>set (combineTrends cs ts). relevanceScore e \<le> relevanceScore r"
    by (simp add: combineTrends_def S_def)
  with len show ?thesis by simp
qed

text \<open>
  Claim C6. For market and timeline lists in which each keyword stands once (what "the
  score of a keyword in a list" presupposes), and \<open>R\<close> the list that \<open>combineTrends\<close>
  returns:
  a keyword that the market list holds with score \<open>m\<close> and volume \<open>v1\<close> and the
  timeline list with score \<open>t\<close> and volume \<open>v2\<close> has as its merged entry the market
  entry with score \<open>m + 0.5 t\<close> and volume \<open>v1 + v2\<close>; a keyword of only one list has
  as its merged entry the entry of that list, unchanged. Every merged entry is in \<open>R\<close>,
  unless \<open>R\<close> has 20 entries and each of them has a score at least as high. Every entry
  of \<open>R\<close> is one of these merged entries, no keyword stands twice in \<open>R\<close>, \<open>R\<close> is
  sorted by descending score, and its length is the number of keywords of the two
  lists, or 20 when they are more.
\<close>

theorem combineTrends_merge:
  assumes dc: "distinct (map keyword cryptoTrends)"
    and dt: "distinct (map keyword twitterTrends)"
  shows "(\<forall>c\<in>set cryptoTrends. \<forall>t\<in>set twitterTrends. keyword c = keyword t \<longrightarrow>
            map_of (mergedTrends cryptoTrends twitterTrends) (keyword c) =
              Some (c\<lparr>relevanceScore := relevanceScore c + relevanceScore t * (1 / 2),
                       volume := volume c + volume t\<rparr>)
          \<and> (c\<lparr>relevanceScore := relevanceScore c + relevanceScore t * (1 / 2),
                 volume := volume c + volume t\<rparr>
                \<in> set (combineTrends cryptoTrends twitterTrends)
              \<or> (length (combineTrends cryptoTrends twitterTrends) = 20
                  \<and> (\<forall>r\<in>set (combineTrends cryptoTrends twitterTrends).
                        relevanceScore c + relevanceScore t * (1 / 2) \<le> relevanceScore r))))
       \<and> (\<forall>c\<in>set cryptoTrends. keyword c \<notin> keyword ` set twitterTrends \<longrightarrow>
            map_of (mergedTrends cryptoTrends twitterTrends) (keyword c) = Some c
          \<and> (c \<in> set (combineTrends cryptoTrends twitterTrends)
              \<or> (length (combineTrends cryptoTrends twitterTrends) = 20
                  \<and> (\<forall>r\<in>set (combineTrends cryptoTrends twitterTrends).
                        relevanceScore c \<le> relevanceScore r))))
       \<and> (\<forall>t\<in>set twitterTrends. keyword t \<notin> keyword ` set cryptoTrends \<longrightarrow>
            map_of (mergedTrends cryptoTrends twitterTrends) (keyword t) = Some t
          \<and> (t \<in> set (combineTrends cryptoTrends twitterTrends)
              \<or> (length (combineTrends cryptoTrends twitterTrends) = 20
                  \<and> (\<forall>r\<in>set (combineTrends cryptoTrends twitterTrends).
                        relevanceScore t \<le> relevanceScore r))))
       \<and> (\<forall>e\<in>set (combineTrends cryptoTrends twitterTrends).
            map_of (mergedTrends cryptoTrends twitterTrends) (keyword e) = Some e
          \<and> ((\<exists>c\<in>set cryptoTrends. \<exists>t\<in>set twitterTrends. keyword c = keyword t
                 \<and> e = c\<lparr>relevanceScore := relevanceScore c + relevanceScore t * (1 / 2),
                          volume := volume c + volume t\<rparr>)
              \<or> (e \<in> set cryptoTrends \<and> keyword e \<notin> keyword ` set twitterTrends)
              \<or> (e \<in> set twitterTrends \<and> keyword e \<notin> keyword ` set cryptoTrends)))
       \<and> distinct (map keyword (combineTrends cryptoTrends twitterTrends))
       \<and> sorted_wrt (\<lambda>a b. relevanceScore b \<le> relevanceScore a)
            (combineTrends cryptoTrends twitterTrends)
       \<and> length (combineTrends cryptoTrends twitterTrends)
            = min 20 (card (keyword ` (set cryptoTrends \<union> set twitterTrends)))"
proof -
  let ?M = "mergedTrends cryptoTrends twitterTrends"
  let ?R = "combineTrends cryptoTrends twitterTrends"
  have both: "map_of ?M (keyword c) =
              Some (c\<lparr>relevanceScore := relevanceScore c + relevanceScore t * (1 / 2),
                       volume := volume c + volume t\<rparr>)"
    if c: "c \<in> set cryptoTrends" and t: "t \<in> set twitterTrends"
      and k: "keyword c = keyword t" for c t
  proof -
    have "map_of (foldl addCryptoTrend [] cryptoTrends) (keyword t) = Some c"
      using addCrypto_in[OF dc c, of "[]"] k by simp
    then show ?thesis
      using mergeTwitter_in[OF dt t, of "foldl addCryptoTrend [] cryptoTrends"] k
      by (simp add: mergedTrends_def)
  qed
  have conly: "map_of ?M (keyword c) = Some c"
    if c: "c \<in> set cryptoTrends" and k: "keyword c \<notin> keyword ` set twitterTrends" for c
    using mergeTwitter_other[OF k, of "foldl addCryptoTrend [] cryptoTrends"]
      addCrypto_in[OF dc c, of "[]"]
    by (simp add: mergedTrends_def)
  have tonly: "map_of ?M (keyword t) = Some t"
    if t: "t \<in> set twitterTrends" and k: "keyword t \<notin> keyword ` set cryptoTrends" for t
  proof -
    have "map_of (foldl addCryptoTrend [] cryptoTrends) (keyword t) = None"
      using addCrypto_other[OF k, of "[]"] by simp
    then show ?thesis
      using mergeTwitter_in[OF dt t, of "foldl addCryptoTrend [] cryptoTrends"]
      by (simp add: mergedTrends_def)
  qed
  have entry: "map_of ?M (keyword e) = Some e" if "e \<in> set ?R" for e
  proof -
    from that have "e \<in> snd ` set ?M" using combineTrends_set by blast
    then show ?thesis by (rule mergedTrends_entry)
  qed
  have origin:
    "(\<exists>c\<in>set cryptoTrends. \<exists>t\<in>set twitterTrends. keyword c = keyword t
         \<and> e = c\<lparr>relevanceScore := relevanceScore c + relevanceScore t * (1 / 2),
                  volume := volume c + volume t\<rparr>)
     \<or> (e \<in> set cryptoTrends \<and> keyword e \<notin> keyword ` set twitterTrends)
     \<or> (e \<in> set twitterTrends \<and> keyword e \<notin> keyword ` set cryptoTrends)"
    if e: "e \<in> set ?R" for e
  proof -
    note m = entry[OF e]
    then have "(keyword e, e) \<in> set ?M" by (rule map_of_SomeD)
    then have "keyword e \<in> fst ` set ?M" by force
    then have dom: "keyword e \<in> keyword ` set cryptoTrends \<or> keyword e \<in> keyword ` set twitterTrends"
      unfolding mergedTrends_keyset by blast
    show ?thesis
    proof (cases "keyword e \<in> keyword ` set cryptoTrends")
      case inC: True
      then obtain c where c: "c \<in> set cryptoTrends" and kc: "keyword e = keyword c" by blast
      show ?thesis
      proof (cases "keyword e \<in> keyword ` set twitterTrends")
        case True
        then obtain t where t: "t \<in> set twitterTrends" and kt: "keyword e = keyword t" by blast
        have "e = c\<lparr>relevanceScore := relevanceScore c + relevanceScore t * (1 / 2),
                     volume := volume c + volume t\<rparr>"
          using both[OF c t] m kc kt by simp
        with c t kc kt show ?thesis by auto
      next
        case False
        then have "keyword c \<notin> keyword ` set twitterTrends" using kc by simp
        from conly[OF c this] m kc have "e = c" by simp
        with c False show ?thesis by simp
      qed
    next
      case notC: False
      with dom obtain t where t: "t \<in> set twitterTrends" and kt: "keyword e = keyword t" by blast
      from notC kt have "keyword t \<notin> keyword ` set cryptoTrends" by simp
      from tonly[OF t this] m kt have "e = t" by simp
      with t notC show ?thesis by simp
    qed
  qed
  have len: "length ?R = min 20 (card (keyword ` (set cryptoTrends \<union> set twitterTrends)))"
    by (simp only: combineTrends_length mergedTrends_length)
  show ?thesis
  proof (intro conjI ballI impI)
    fix c t
    assume c: "c \<in> set cryptoTrends" and t: "t \<in> set twitterTrends"
      and k: "keyword c = keyword t"
    show "map_of ?M (keyword c) =
              Some (c\<lparr>relevanceScore := relevanceScore c + relevanceScore t * (1 / 2),
                       volume := volume c + volume t\<rparr>)"
      by (rule both[OF c t k])
    show "c\<lparr>relevanceScore := relevanceScore c + relevanceScore t * (1 / 2),
                 volume := volume c + volume t\<rparr> \<in> set ?R
              \<or> (length ?R = 20
                  \<and> (\<forall>r\<in>set ?R. relevanceScore c + relevanceScore t * (1 / 2) \<le> relevanceScore r))"
      using combineTrends_top[OF both[OF c t k]] by simp
  next
    fix c
    assume c: "c \<in> set cryptoTrends" and k: "keyword c \<notin> keyword ` set twitterTrends"
    show "map_of ?M (keyword c) = Some c" by (rule conly[OF c k])
    show "c \<in> set ?R \<or> (length ?R = 20 \<and> (\<forall>r\<in>set ?R. relevanceScore c \<le> relevanceScore r))"
      by (rule combineTrends_top[OF conly[OF c k]])
  next
    fix t
    assume t: "t \<in> set twitterTrends" and k: "keyword t \<notin> keyword ` set cryptoTrends"
    show "map_of ?M (keyword t) = Some t" by (rule tonly[OF t k])
    show "t \<in> set ?R \<or> (length ?R = 20 \<and> (\<forall>r\<in>set ?R. relevanceScore t \<le> relevanceScore r))"
      by (rule combineTrends_top[OF tonly[OF t k]])
  next
    fix e
    assume e: "e \<in> set ?R"
    show "map_of ?M (keyword e) = Some e" by (rule entry[OF e])
    show "(\<exists>c\<in>set cryptoTrends. \<exists>t\<in>set twitterTrends. keyword c = keyword t
             \<and> e = c\<lparr>relevanceScore := relevanceScore c + relevanceScore t * (1 / 2),
                      volume := volume c + volume t\<rparr>)
         \<or> (e \<in> set cryptoTrends \<and> keyword e \<notin> keyword ` set twitterTrends)
         \<or> (e \<in> set twitterTrends \<and> keyword e \<notin> keyword ` set cryptoTrends)"
      by (rule origin[OF e])
  next
    show "distinct (map keyword ?R)" by (rule combineTrends_distinct)
    show "sorted_wrt (\<lambda>a b. relevanceScore b \<le> relevanceScore a) ?R"
      by (rule combineTrends_sorted)
    show "length ?R = min 20 (card (keyword ` (set cryptoTrends \<union> set twitterTrends)))"
      by (rule len)
  qed
qed

lemma js_Nil: "js [] = []" by (simp add: js_def)
lemma js_Cons: "js (c # cs) = of_char c # js cs" by (simp add: js_def)

lemmas trend_eval = js_Nil js_Cons getFallbackCryptoTrends_def defiTimelineTopic_def mergedTrends_def
  addCryptoTrend_def mergeTwitterTrend_def combineTrends_def sortByScoreDesc_def

theorem combineTrends_merge_witness:
  "distinct (map keyword getFallbackCryptoTrends) \<and> distinct (map keyword [defiTimelineTopic])
   \<and> getFallbackCryptoTrends ! 2 \<in> set getFallbackCryptoTrends
   \<and> defiTimelineTopic \<in> set [defiTimelineTopic]
   \<and> keyword (getFallbackCryptoTrends ! 2) = keyword defiTimelineTopic
   \<and> getFallbackCryptoTrends ! 0 \<in> set getFallbackCryptoTrends
   \<and> keyword (getFallbackCryptoTrends ! 0) \<notin> keyword ` set [defiTimelineTopic]
   \<and> map_of (mergedTrends getFallbackCryptoTrends [defiTimelineTopic]) (js ''defi'') =
       Some \<lparr>keyword = js ''defi'', volume = 500003, sentiment = neutral, category = defi,
             relevanceScore = 110\<rparr>
   \<and> \<lparr>keyword = js ''defi'', volume = 500003, sentiment = neutral, category = defi,
        relevanceScore = 110\<rparr>
       \<in> set (combineTrends getFallbackCryptoTrends [defiTimelineTopic])
   \<and> getFallbackCryptoTrends ! 0
       \<in> set (combineTrends getFallbackCryptoTrends [defiTimelineTopic])
   \<and> length (combineTrends getFallbackCryptoTrends [defiTimelineTopic]) = 4"
proof -
  let ?R = "combineTrends getFallbackCryptoTrends [defiTimelineTopic]"
  let ?c = "getFallbackCryptoTrends ! 2"
  let ?b = "getFallbackCryptoTrends ! 0"
  have d1: "distinct (map keyword getFallbackCryptoTrends)" by (simp add: trend_eval)
  have d2: "distinct (map keyword [defiTimelineTopic])" by simp
  have m1: "?c \<in> set getFallbackCryptoTrends"
    by (simp add: getFallbackCryptoTrends_def)
  have m2: "defiTimelineTopic \<in> set [defiTimelineTopic]" by simp
  have k: "keyword ?c = keyword defiTimelineTopic"
    by (simp add: trend_eval)
  have m0: "?b \<in> set getFallbackCryptoTrends"
    by (simp add: getFallbackCryptoTrends_def)
  have k0: "keyword ?b \<notin> keyword ` set [defiTimelineTopic]"
    by (simp add: trend_eval)
  have n: "card (keyword ` (set getFallbackCryptoTrends \<union> set [defiTimelineTopic])) = 4"
    by (simp add: trend_eval card_insert_if)
  note main = combineTrends_merge[OF d1 d2]
  from main n have len: "length ?R = 4" by simp
  from main m1 m2 k
  have "map_of (mergedTrends getFallbackCryptoTrends [defiTimelineTopic]) (keyword ?c) =
          Some (?c\<lparr>relevanceScore := relevanceScore ?c + relevanceScore defiTimelineTopic * (1 / 2),
                   volume := volume ?c + volume defiTimelineTopic\<rparr>)
        \<and> (?c\<lparr>relevanceScore := relevanceScore ?c + relevanceScore defiTimelineTopic * (1 / 2),
                volume := volume ?c + volume defiTimelineTopic\<rparr> \<in> set ?R
           \<or> length ?R = 20
             \<and> (\<forall>r\<in>set ?R. relevanceScore ?c + relevanceScore defiTimelineTopic * (1 / 2)
                    \<le> relevanceScore r))"
    by blast
  with len
  have b: "map_of (mergedTrends getFallbackCryptoTrends [defiTimelineTopic]) (keyword ?c) =
          Some (?c\<lparr>relevanceScore := relevanceScore ?c + relevanceScore defiTimelineTopic * (1 / 2),
                   volume := volume ?c + volume defiTimelineTopic\<rparr>)
        \<and> ?c\<lparr>relevanceScore := relevanceScore ?c + relevanceScore defiTimelineTopic * (1 / 2),
                volume := volume ?c + volume defiTimelineTopic\<rparr> \<in> set ?R"
    by simp
  from main m0 k0
  have "?b \<in> set ?R \<or> length ?R = 20 \<and> (\<forall>r\<in>set ?R. relevanceScore ?b \<le> relevanceScore r)"
    by blast
  with len have b0: "?b \<in> set ?R" by simp
  have kd: "keyword ?c = js ''defi''"
    by (simp add: getFallbackCryptoTrends_def)
  have v: "?c\<lparr>relevanceScore := relevanceScore ?c + relevanceScore defiTimelineTopic * (1 / 2),
                volume := volume ?c + volume defiTimelineTopic\<rparr>
      = \<lparr>keyword = js ''defi'', volume = 500003, sentiment = neutral, category = defi,
             relevanceScore = 110\<rparr>"
    by (simp add: getFallbackCryptoTrends_def defiTimelineTopic_def)
  from b have "map_of (mergedTrends getFallbackCryptoTrends [defiTimelineTopic]) (js ''defi'') =
       Some \<lparr>keyword = js ''defi'', volume = 500003, sentiment = neutral, category = defi,
             relevanceScore = 110\<rparr>
     \<and> \<lparr>keyword = js ''defi'', volume = 500003, sentiment = neutral, category = defi,
        relevanceScore = 110\<rparr> \<in> set ?R"
    unfolding kd v .
  with d1 d2 m1 m2 k m0 k0 b0 len show ?thesis by blast
qed

lemma lower_defi: "toLowerCase (tweet_text defiTweet) = js ''defi summer''"
  by (simp add: defiTweet_def toLowerCase_def lowerUnits_def lowerUnit_def js_def)

lemma defi_keywords:
  "filter (includesStr (js ''defi summer'')) CRYPTO_KEYWORDS = [js ''defi'']"
  by (simp add: CRYPTO_KEYWORDS_def js_def)

lemma countKeyword_filter:
  "foldl (countKeyword txt e) maps ks = foldl (countKeyword txt e) maps (filter (includesStr txt) ks)"
  by (induction ks arbitrary: maps) (simp_all add: countKeyword_def split: prod.splits)

lemma analyzeTweet_defi:
  "analyzeTweet (kc, sm) defiTweet =
     (AList.update (js ''defi'') ((case map_of kc (js ''defi'') of None \<Rightarrow> 0 | Some n \<Rightarrow> n) + 1) kc,
      AList.update (js ''defi'')
        ((case map_of sm (js ''defi'') of None \<Rightarrow> [] | Some es \<Rightarrow> es) @ [20]) sm)"
proof -
  have e: "tweetEngagement defiTweet = 20"
    by (simp add: tweetEngagement_def defiTweet_def orZero_def)
  have "analyzeTweet (kc, sm) defiTweet
          = foldl (countKeyword (js ''defi summer'') 20) (kc, sm)
              (filter (includesStr (js ''defi summer'')) CRYPTO_KEYWORDS)"
    unfolding analyzeTweet_def lower_defi e by (rule countKeyword_filter)
  also have "\<dots> = countKeyword (js ''defi summer'') 20 (kc, sm) (js ''defi'')"
    unfolding defi_keywords by simp
  also have "includesStr (js ''defi summer'') (js ''defi'')" by (simp add: js_def)
  then have "countKeyword (js ''defi summer'') 20 (kc, sm) (js ''defi'') =
     (AList.update (js ''defi'') ((case map_of kc (js ''defi'') of None \<Rightarrow> 0 | Some n \<Rightarrow> n) + 1) kc,
      AList.update (js ''defi'')
        ((case map_of sm (js ''defi'') of None \<Rightarrow> [] | Some es \<Rightarrow> es) @ [20]) sm)"
    by (simp add: countKeyword_def)
  finally show ?thesis .
qed

lemma analyze_defi: "analyzeTwitterTrends (Inr [defiTweet, defiTweet, defiTweet]) = [defiTimelineTopic]"
proof -
  have "foldl analyzeTweet ([], []) [defiTweet, defiTweet, defiTweet]
          = ([(js ''defi'', 3)], [(js ''defi'', [20, 20, 20])])"
    by (simp add: analyzeTweet_defi)
  then show ?thesis
    by (simp add: analyzeTwitterTrends_def sortByScoreDesc_def twitterTrend_def
        categorizeKeyword_def defiTimelineTopic_def js_def)
qed

lemma fallback_defi_list:
  assumes "analyzeTwitterTrends timeline = [defiTimelineTopic]"
  shows "trendingTopics (Inl e) timeline =
     [\<lparr>keyword = js ''defi'', volume = 500003, sentiment = neutral, category = defi,
       relevanceScore = 110\<rparr>,
      \<lparr>keyword = js ''bitcoin'', volume = 1000000, sentiment = positive, category = crypto,
       relevanceScore = 95\<rparr>,
      \<lparr>keyword = js ''ethereum'', volume = 800000, sentiment = positive, category = crypto,
       relevanceScore = 90\<rparr>,
      \<lparr>keyword = js ''trading'', volume = 300000, sentiment = positive, category = trading,
       relevanceScore = 80\<rparr>]"
  using assms by (simp add: trendingTopics_def getCryptoTrends_def trend_eval)

text \<open>
  Claim C7, as the code has it. When the market call throws, the fallback list stands
  for the market side. That list has a \<open>defi\<close> entry of its own (score 85, volume
  500000), so a timeline topic \<open>defi\<close> with count 3 and average engagement 20 (score
  50) is merged into it: the result is the four fallback keywords, \<open>defi\<close> first with
  score \<open>85 + 0.5 * 50 = 110\<close> and volume 500003, then \<open>bitcoin\<close> 95, \<open>ethereum\<close> 90
  and \<open>trading\<close> 80.
\<close>

theorem fallback_defi_merged:
  assumes "analyzeTwitterTrends timeline = [defiTimelineTopic]"
  shows "trendingTopics (Inl e) timeline =
     [\<lparr>keyword = js ''defi'', volume = 500003, sentiment = neutral, category = defi,
       relevanceScore = 110\<rparr>,
      \<lparr>keyword = js ''bitcoin'', volume = 1000000, sentiment = positive, category = crypto,
       relevanceScore = 95\<rparr>,
      \<lparr>keyword = js ''ethereum'', volume = 800000, sentiment = positive, category = crypto,
       relevanceScore = 90\<rparr>,
      \<lparr>keyword = js ''trading'', volume = 300000, sentiment = positive, category = trading,
       relevanceScore = 80\<rparr>]"
  using assms by (rule fallback_defi_list)

theorem fallback_defi_merged_witness:
  "analyzeTwitterTrends (Inr [defiTweet, defiTweet, defiTweet]) = [defiTimelineTopic]
   \<and> map keyword
        (trendingTopics (Inl NonError) (Inr [defiTweet, defiTweet, defiTweet]))
       = [js ''defi'', js ''bitcoin'', js ''ethereum'', js ''trading'']"
proof -
  have h: "analyzeTwitterTrends (Inr [defiTweet, defiTweet, defiTweet]) = [defiTimelineTopic]"
    by (rule analyze_defi)
  show ?thesis
    using h fallback_defi_merged[OF h, of NonError] by simp
qed

text \<open>
  Claim C7 as stated fails: with the market call throwing and three \<open>defi\<close> tweets of
  engagement 20 each on the timeline, the timeline analysis gives the \<open>defi\<close> topic of
  score 50, and the ranked list has the scores 110, 95, 90 and 80: no entry of score 50,
  and the \<open>defi\<close> entry is the fallback's, boosted.
\<close>

theorem fallback_defi_counterexample:
  "analyzeTwitterTrends (Inr [defiTweet, defiTweet, defiTweet]) = [defiTimelineTopic]
   \<and> map relevanceScore
        (trendingTopics (Inl (Error (js ''503''))) (Inr [defiTweet, defiTweet, defiTweet]))
       = [110, 95, 90, 80]
   \<and> map keyword
        (trendingTopics (Inl (Error (js ''503''))) (Inr [defiTweet, defiTweet, defiTweet]))
       = [js ''defi'', js ''bitcoin'', js ''ethereum'', js ''trading'']"
  using analyze_defi fallback_defi_list[OF analyze_defi, of "Error (js ''503'')"] by simp

section \<open>Properties of the autonomous engine\<close>

lemma addActivity_replyCount [simp]: "replyCount (addActivity a s) = replyCount s"
  by (simp add: addActivity_def Let_def)

lemma addActivity_externalCalls [simp]: "externalCalls (addActivity a s) = externalCalls s"
  by (simp add: addActivity_def Let_def)

lemma replyToMention_count:
  "replyCount (replyToMention s (m, a)) =
     (case aiResult a of
        Inl e \<Rightarrow> replyCount s
      | Inr r \<Rightarrow> (case replyResult a of Some e \<Rightarrow> replyCount s | None \<Rightarrow> replyCount s + 1))"
  by (simp add: replyToMention_def Let_def split: sum.splits option.splits)

lemma replyToMention_le: "replyCount (replyToMention s ma) \<le> replyCount s + 1"
  by (cases ma) (simp add: replyToMention_count split: sum.splits option.splits)

lemma mentionsLoop_at_cap:
  "maxRepliesPerHour config \<le> of_int (replyCount s) \<Longrightarrow> mentionsLoop config s ms = s"
  by (cases ms) simp_all

lemma engageWithTweet_count:
  "replyCount (engageWithTweet config s (tw, a)) =
     (if shouldEngageWithTweet tw config \<and> of_int (replyCount s) < maxRepliesPerHour config
      then (case aiResult a of
              Inl e \<Rightarrow> replyCount s
            | Inr r \<Rightarrow> (case replyResult a of Some e \<Rightarrow> replyCount s | None \<Rightarrow> replyCount s + 1))
      else replyCount s)"
  by (simp add: engageWithTweet_def Let_def split: sum.splits option.splits)

lemma engageWithTweet_le: "replyCount (engageWithTweet config s ta) \<le> replyCount s + 1"
  by (cases ta) (simp add: engageWithTweet_count split: sum.splits option.splits)

lemma engageWithTweet_at_cap:
  "maxRepliesPerHour config \<le> of_int (replyCount s) \<Longrightarrow> engageWithTweet config s ta = s"
  by (cases ta) (simp add: engageWithTweet_def)

text \<open>With a whole cap \<open>k\<close>, a counter that is at most \<open>k\<close> stays so.\<close>

lemma mentionsLoop_bound:
  assumes "maxRepliesPerHour config = of_int k"
  shows "replyCount s \<le> k \<Longrightarrow> replyCount (mentionsLoop config s ms) \<le> k"
proof (induction ms arbitrary: s)
  case Nil
  then show ?case by simp
next
  case (Cons ma rest)
  show ?case
  proof (cases "of_int (replyCount s) \<ge> maxRepliesPerHour config")
    case True
    with Cons.prems show ?thesis by simp
  next
    case False
    then have "replyCount s < k" using assms by simp
    then have "replyCount (replyToMention s ma) \<le> k"
      using replyToMention_le[of s ma] by linarith
    then show ?thesis using False Cons.IH by simp
  qed
qed

lemma handleMentions_bound:
  assumes "maxRepliesPerHour config = of_int k"
  shows "replyCount s \<le> k \<Longrightarrow> replyCount (handleMentions config fetched s) \<le> k"
  by (simp add: handleMentions_def mentionsLoop_bound[OF assms] split: sum.splits)

lemma engageWithTweet_bound:
  assumes "maxRepliesPerHour config = of_int k"
  shows "replyCount s \<le> k \<Longrightarrow> replyCount (engageWithTweet config s ta) \<le> k"
  using assms by (cases ta) (simp add: engageWithTweet_count split: sum.splits option.splits)

lemma engageLoop_bound:
  assumes "maxRepliesPerHour config = of_int k"
  shows "replyCount s \<le> k \<Longrightarrow> replyCount (foldl (engageWithTweet config) s tws) \<le> k"
  by (induction tws arbitrary: s) (simp_all add: engageWithTweet_bound[OF assms])

lemma handleTimelineEngagement_bound:
  assumes "maxRepliesPerHour config = of_int k"
  shows "replyCount s \<le> k \<Longrightarrow> replyCount (handleTimelineEngagement config fetched s) \<le> k"
  by (simp add: handleTimelineEngagement_def engageLoop_bound[OF assms]
      split: sum.splits prod.splits)

lemma runCall_bound:
  assumes "maxRepliesPerHour config = of_int k"
  shows "replyCount s \<le> k \<Longrightarrow> replyCount (runCall config s c) \<le> k"
  by (cases c)
     (simp_all add: handleMentions_bound[OF assms] handleTimelineEngagement_bound[OF assms])

lemma runCalls_bound:
  assumes "maxRepliesPerHour config = of_int k"
  shows "replyCount s \<le> k \<Longrightarrow> replyCount (runCalls config s calls) \<le> k"
  unfolding runCalls_def
  by (induction calls arbitrary: s) (simp_all add: runCall_bound[OF assms])

text \<open>Evaluating the handlers on the concrete inputs.\<close>

lemma alphaTweet_engages:
  "shouldEngageWithTweet alphaTweet alphaConfig"
  by (simp add: shouldEngageWithTweet_def alphaTweet_def alphaConfig_def defaultConfig_def
      orZero_def toLowerCase_def lowerUnits_def lowerUnit_def js_def Let_def)

lemma alphaTweet_id: "tweet_id alphaTweet = js ''1001''"
  by (simp add: alphaTweet_def)

lemma attempt_fields:
  "aiResult (repliedAttempt t) = Inr (js ''gm'')" "replyResult (repliedAttempt t) = None"
  "aiResult (refusedAttempt t) = Inr (js ''gm'')"
  "replyResult (refusedAttempt t) = Some (Error (js ''429''))"
  "now (repliedAttempt t) = t" "now (refusedAttempt t) = t"
  by (simp_all add: repliedAttempt_def refusedAttempt_def)

lemma config_caps:
  "maxRepliesPerHour alphaConfig = 1" "maxRepliesPerHour defaultConfig = 10"
  "maxRepliesPerHour fractionalConfig = 5 / 2"
  by (simp_all add: alphaConfig_def defaultConfig_def fractionalConfig_def)

lemma fresh_fields:
  "replyCount (newService t) = 0" "externalCalls (newService t) = []"
  "activities (newService t) = []"
  by (simp_all add: newService_def)

lemma twoAlphaTweets_fresh:
  "replyCount (runCalls alphaConfig (newService 0) [twoAlphaTweets]) = 1"
  "map act_type (activities (runCalls alphaConfig (newService 0) [twoAlphaTweets]))
     = [engagement, timeline_read]"
  by (simp_all add: runCalls_def twoAlphaTweets_def handleTimelineEngagement_def
      engageWithTweet_def alphaTweet_engages attempt_fields config_caps fresh_fields
      addActivity_def engaged_def timelineRead_def Let_def)

text \<open>
  Claim C1, as the code has it. The cap is a whole number \<open>k\<close>, the counter enters the
  hourly window at most \<open>k\<close> (a fresh window enters with 0), and the handler calls run
  one after another. Then the reply counter is at most \<open>k\<close> after every sequence of
  mention and timeline handler calls and after every number of iterations inside either
  loop; at the cap mention handling returns and its loop stops with the state, the
  platform's log of reply calls included, as it was, and a timeline iteration leaves
  the state as it was; below the cap an iteration leaves the counter at most \<open>k\<close>. For
  any cap (\<open>config'\<close>), whole or not, and any counter: at or above the cap nothing is
  attempted, and an iteration that starts below the cap leaves the counter below the cap
  plus one.
\<close>

theorem reply_budget_never_exceeded:
  assumes whole: "maxRepliesPerHour config = of_int k"
    and entry: "replyCount s \<le> k"
  shows "replyCount (runCalls config s calls) \<le> k
       \<and> replyCount (mentionsLoop config s ms) \<le> k
       \<and> replyCount (foldl (engageWithTweet config) s tws) \<le> k
       \<and> (\<forall>s'. k \<le> replyCount s' \<longrightarrow>
              handleMentions config fetched s' = s'
            \<and> mentionsLoop config s' ms = s'
            \<and> engageWithTweet config s' ta = s')
       \<and> (\<forall>s'. replyCount s' < k \<longrightarrow>
              replyCount (replyToMention s' ma) \<le> k
            \<and> replyCount (engageWithTweet config s' ta) \<le> k)
       \<and> (\<forall>s'. maxRepliesPerHour config' \<le> of_int (replyCount s') \<longrightarrow>
              handleMentions config' fetched s' = s'
            \<and> mentionsLoop config' s' ms = s'
            \<and> engageWithTweet config' s' ta = s')
       \<and> (\<forall>s'. of_int (replyCount s') < maxRepliesPerHour config' \<longrightarrow>
              of_int (replyCount (replyToMention s' ma)) < maxRepliesPerHour config' + 1
            \<and> of_int (replyCount (engageWithTweet config' s' ta))
                < maxRepliesPerHour config' + 1)"
proof (intro conjI allI impI)
  show "replyCount (runCalls config s calls) \<le> k"
    using entry by (rule runCalls_bound[OF whole])
  show "replyCount (mentionsLoop config s ms) \<le> k"
    using entry by (rule mentionsLoop_bound[OF whole])
  show "replyCount (foldl (engageWithTweet config) s tws) \<le> k"
    using entry by (rule engageLoop_bound[OF whole])
next
  fix s' :: system
  assume "k \<le> replyCount s'"
  then have cap: "maxRepliesPerHour config \<le> of_int (replyCount s')"
    using whole by simp
  show "handleMentions config fetched s' = s'"
    using cap by (simp add: handleMentions_def)
  show "mentionsLoop config s' ms = s'"
    using cap by (rule mentionsLoop_at_cap)
  show "engageWithTweet config s' ta = s'"
    using cap by (rule engageWithTweet_at_cap)
next
  fix s' :: system
  assume below: "replyCount s' < k"
  show "replyCount (replyToMention s' ma) \<le> k"
    using below replyToMention_le[of s' ma] by linarith
  show "replyCount (engageWithTweet config s' ta) \<le> k"
    using below engageWithTweet_le[of config s' ta] by linarith
next
  fix s' :: system
  assume cap: "maxRepliesPerHour config' \<le> of_int (replyCount s')"
  show "handleMentions config' fetched s' = s'"
    using cap by (simp add: handleMentions_def)
  show "mentionsLoop config' s' ms = s'"
    using cap by (rule mentionsLoop_at_cap)
  show "engageWithTweet config' s' ta = s'"
    using cap by (rule engageWithTweet_at_cap)
next
  fix s' :: system
  assume below: "of_int (replyCount s') < maxRepliesPerHour config'"
  have "(of_int (replyCount (replyToMention s' ma)) :: rat) \<le> of_int (replyCount s') + 1"
    using replyToMention_le[of s' ma] by (metis of_int_1 of_int_add of_int_le_iff)
  then show "of_int (replyCount (replyToMention s' ma)) < maxRepliesPerHour config' + 1"
    using below by linarith
  have "(of_int (replyCount (engageWithTweet config' s' ta)) :: rat) \<le> of_int (replyCount s') + 1"
    using engageWithTweet_le[of config' s' ta] by (metis of_int_1 of_int_add of_int_le_iff)
  then show "of_int (replyCount (engageWithTweet config' s' ta)) < maxRepliesPerHour config' + 1"
    using below by linarith
qed

theorem reply_budget_never_exceeded_witness:
  "maxRepliesPerHour alphaConfig = of_int 1
   \<and> replyCount (newService 0) \<le> 1
   \<and> replyCount (runCalls alphaConfig (newService 0) [twoAlphaTweets]) = 1
   \<and> map act_type (activities (runCalls alphaConfig (newService 0) [twoAlphaTweets]))
       = [engagement, timeline_read]
   \<and> engageWithTweet alphaConfig (runCalls alphaConfig (newService 0) [twoAlphaTweets])
         (alphaTweet, repliedAttempt 4)
       = runCalls alphaConfig (newService 0) [twoAlphaTweets]"
proof -
  have w: "maxRepliesPerHour alphaConfig = of_int 1" by (simp add: config_caps)
  have h: "replyCount (newService 0) \<le> 1" by (simp add: fresh_fields)
  note c = twoAlphaTweets_fresh(1)
  note a = twoAlphaTweets_fresh(2)
  from reply_budget_never_exceeded[OF w h, of "[twoAlphaTweets]" "[]" "[]" "Inr []"
      "(alphaTweet, repliedAttempt 4)" "(alphaTweet, repliedAttempt 4)" alphaConfig]
  have "\<forall>s'. 1 \<le> replyCount s' \<longrightarrow>
          engageWithTweet alphaConfig s' (alphaTweet, repliedAttempt 4) = s'"
    by blast
  then have "engageWithTweet alphaConfig (runCalls alphaConfig (newService 0) [twoAlphaTweets])
         (alphaTweet, repliedAttempt 4)
       = runCalls alphaConfig (newService 0) [twoAlphaTweets]"
    using c by simp
  with w h c a show ?thesis by blast
qed

text \<open>
  Claim C1 as stated fails, in three ways. With the cap \<open>2.5\<close>, which the route passes on
  as it comes, one call of mention handling on a fresh engine replies three times and
  the counter is 3. After two replies under the default cap 10, a restart in the same
  hour with the cap 1 finds the counter at 2, and it stays 2 through the handler calls
  of the new configuration. With the cap 1, two mention iterations that overlap on a
  fresh engine both pass their check at 0 and the counter ends at 2.
\<close>

theorem reply_budget_exceeded_counterexample:
  "maxRepliesPerHour fractionalConfig = 5 / 2
   \<and> replyCount (runCalls fractionalConfig (newService 0) [threeMentions]) = 3
   \<and> maxRepliesPerHour alphaConfig = 1
   \<and> replyCount
        (runCalls alphaConfig (runCalls defaultConfig (newService 0) [twoMentions])
           [twoAlphaTweets]) = 2
   \<and> replyCount
        (overlappedMentions alphaConfig (newService 0)
           (alphaTweet, repliedAttempt 1) (alphaTweet, repliedAttempt 2)) = 2"
  by (simp add: runCalls_def threeMentions_def twoMentions_def twoAlphaTweets_def
      handleMentions_def handleTimelineEngagement_def overlappedMentions_def
      replyToMention_count engageWithTweet_count attempt_fields config_caps fresh_fields)

text \<open>
  Claim C4, as the code has it. In both handlers \<open>this.replyCount++\<close> stands after
  \<open>await twitterService.replyToTweet(..)\<close>: the counter is incremented only when the
  reply call has resolved. When the generation has returned, the reply call is issued
  to the platform. When it resolves, the counter is one more and the success is
  recorded. When it throws, the counter is as it was; mention handling records the
  failure as a failed activity with the error's message, and timeline engagement
  records nothing.
\<close>

theorem reply_counted_only_after_success:
  assumes "aiResult a = Inr r"
  shows "(replyResult a = None \<longrightarrow>
            replyCount (replyToMention s (m, a)) = replyCount s + 1
          \<and> externalCalls (replyToMention s (m, a))
              = externalCalls s @ [ReplyToTweet r (tweet_id m)]
          \<and> activities (replyToMention s (m, a))
              = activities (addActivity (mentionReplied m a r) s)
          \<and> success (mentionReplied m a r)
          \<and> act_type (mentionReplied m a r) = mention_reply)
       \<and> (\<forall>e. replyResult a = Some e \<longrightarrow>
            replyCount (replyToMention s (m, a)) = replyCount s
          \<and> externalCalls (replyToMention s (m, a))
              = externalCalls s @ [ReplyToTweet r (tweet_id m)]
          \<and> activities (replyToMention s (m, a))
              = activities (addActivity (mentionFailed m a e) s)
          \<and> \<not> success (mentionFailed m a e)
          \<and> act_type (mentionFailed m a e) = mention_reply
          \<and> error (mentionFailed m a e) = Some (errorMessage e))
       \<and> (shouldEngageWithTweet m config
            \<and> of_int (replyCount s) < maxRepliesPerHour config \<longrightarrow>
            (replyResult a = None \<longrightarrow>
               replyCount (engageWithTweet config s (m, a)) = replyCount s + 1
             \<and> externalCalls (engageWithTweet config s (m, a))
                 = externalCalls s @ [ReplyToTweet r (tweet_id m)]
             \<and> activities (engageWithTweet config s (m, a))
                 = activities (addActivity (engaged a r) s)
             \<and> success (engaged a r)
             \<and> act_type (engaged a r) = engagement)
          \<and> (\<forall>e. replyResult a = Some e \<longrightarrow>
               replyCount (engageWithTweet config s (m, a)) = replyCount s
             \<and> externalCalls (engageWithTweet config s (m, a))
                 = externalCalls s @ [ReplyToTweet r (tweet_id m)]
             \<and> activities (engageWithTweet config s (m, a)) = activities s))"
  using assms
  by (simp add: replyToMention_def engageWithTweet_def addActivity_def mentionReplied_def
      mentionFailed_def engaged_def Let_def)

theorem reply_counted_only_after_success_witness:
  "aiResult (refusedAttempt 1) = Inr (js ''gm'')
   \<and> replyResult (refusedAttempt 1) = Some (Error (js ''429''))
   \<and> replyCount (replyToMention (newService 0) (alphaTweet, refusedAttempt 1)) = 0
   \<and> externalCalls (replyToMention (newService 0) (alphaTweet, refusedAttempt 1))
       = [ReplyToTweet (js ''gm'') (js ''1001'')]
   \<and> activities (replyToMention (newService 0) (alphaTweet, refusedAttempt 1))
       = [mentionFailed alphaTweet (refusedAttempt 1) (Error (js ''429''))]
   \<and> shouldEngageWithTweet alphaTweet alphaConfig
   \<and> (of_int (replyCount (newService 0)) :: rat) < maxRepliesPerHour alphaConfig
   \<and> replyCount (engageWithTweet alphaConfig (newService 0) (alphaTweet, refusedAttempt 1)) = 0
   \<and> activities (engageWithTweet alphaConfig (newService 0) (alphaTweet, refusedAttempt 1)) = []
   \<and> aiResult (repliedAttempt 1) = Inr (js ''gm'')
   \<and> replyResult (repliedAttempt 1) = None
   \<and> replyCount (replyToMention (newService 0) (alphaTweet, repliedAttempt 1)) = 1"
proof -
  note a1 = attempt_fields(3)[of 1] and r1 = attempt_fields(4)[of 1]
    and a2 = attempt_fields(1)[of 1] and r2 = attempt_fields(2)[of 1]
  note t = alphaTweet_id
  have b: "(of_int (replyCount (newService 0)) :: rat) < maxRepliesPerHour alphaConfig"
    by (simp add: fresh_fields config_caps)
  have f: "activities (addActivity (mentionFailed alphaTweet (refusedAttempt 1) (Error (js ''429'')))
             (newService 0))
           = [mentionFailed alphaTweet (refusedAttempt 1) (Error (js ''429''))]"
    by (simp add: addActivity_def fresh_fields Let_def)
  note refused = reply_counted_only_after_success[OF a1, of "newService 0" alphaTweet alphaConfig]
  from refused r1 fresh_fields[of 0] t f
  have m: "replyCount (replyToMention (newService 0) (alphaTweet, refusedAttempt 1)) = 0
      \<and> externalCalls (replyToMention (newService 0) (alphaTweet, refusedAttempt 1))
          = [ReplyToTweet (js ''gm'') (js ''1001'')]
      \<and> activities (replyToMention (newService 0) (alphaTweet, refusedAttempt 1))
          = [mentionFailed alphaTweet (refusedAttempt 1) (Error (js ''429''))]"
    by simp
  from refused r1 alphaTweet_engages b fresh_fields[of 0]
  have e: "replyCount (engageWithTweet alphaConfig (newService 0) (alphaTweet, refusedAttempt 1)) = 0
      \<and> activities (engageWithTweet alphaConfig (newService 0) (alphaTweet, refusedAttempt 1)) = []"
    by simp
  from reply_counted_only_after_success[OF a2, of "newService 0" alphaTweet alphaConfig] r2
    fresh_fields[of 0]
  have "replyCount (replyToMention (newService 0) (alphaTweet, repliedAttempt 1)) = 1"
    by simp
  with m e a1 r1 a2 r2 alphaTweet_engages b show ?thesis by blast
qed

text \<open>
  Claim C4 as stated fails: with the default configuration, a fresh engine and one
  mention whose reply the platform refuses, the reply call is issued, a failed record
  is appended and the counter is still 0; the same in timeline engagement, where the
  counter is still 0 after the refused reply.
\<close>

theorem failed_reply_not_counted_counterexample:
  "replyCount (handleMentions defaultConfig (Inr [(alphaTweet, refusedAttempt 1)]) (newService 0)) = 0
   \<and> externalCalls (handleMentions defaultConfig (Inr [(alphaTweet, refusedAttempt 1)]) (newService 0))
       = [ReplyToTweet (js ''gm'') (js ''1001'')]
   \<and> map success (activities (handleMentions defaultConfig (Inr [(alphaTweet, refusedAttempt 1)]) (newService 0)))
       = [False]
   \<and> replyCount (handleTimelineEngagement alphaConfig (Inr ([(alphaTweet, refusedAttempt 1)], stampAt 2)) (newService 0)) = 0
   \<and> externalCalls (handleTimelineEngagement alphaConfig (Inr ([(alphaTweet, refusedAttempt 1)], stampAt 2)) (newService 0))
       = [ReplyToTweet (js ''gm'') (js ''1001'')]"
  by (simp add: handleMentions_def handleTimelineEngagement_def replyToMention_def
      engageWithTweet_def alphaTweet_engages attempt_fields config_caps fresh_fields
      addActivity_def mentionFailed_def alphaTweet_id Let_def)

text \<open>
  Claim C10. In every engine state, and whatever configuration \<open>start\<close> was given, the
  field \<open>maxRepliesPerHour\<close> of the status is the constant 10; \<open>isRunning\<close>,
  \<open>replyCount\<close> and \<open>lastResetTime\<close> are the engine's, and the recent activities are the
  five newest records.
\<close>

theorem getStatus_reports_constant_limit:
  "st_maxRepliesPerHour (fst (getStatus s)) = 10
   \<and> st_maxRepliesPerHour (fst (getStatus (start config w s))) = 10
   \<and> st_isRunning (fst (getStatus s)) = isRunning s
   \<and> st_replyCount (fst (getStatus s)) = replyCount s
   \<and> st_lastResetTime (fst (getStatus s)) = lastResetTime s
   \<and> st_recentActivities (fst (getStatus s))
       = take 5 (sort_key (\<lambda>a. - timestamp a) (activities s))"
  by (simp add: getStatus_def getRecentActivities_def slice0_def Let_def split: prod.splits)

lemma addActivity_length: "length (activities (addActivity a s)) \<le> 100"
  by (simp add: addActivity_def Let_def)

lemma insort_key_last:
  "\<forall>y\<in>set ys. f y < f x \<Longrightarrow> insort_key f x ys = ys @ [x]"
  by (induction ys) auto

lemma sort_newest_first:
  "sorted_wrt (\<lambda>a b. timestamp a < timestamp b) xs \<Longrightarrow>
   sort_key (\<lambda>a. - timestamp a) xs = rev xs"
proof (induction xs)
  case Nil
  then show ?case by simp
next
  case (Cons x xs)
  then have "\<forall>y\<in>set (rev xs). - timestamp y < - timestamp x" by auto
  then have "insort_key (\<lambda>a. - timestamp a) x (rev xs) = rev xs @ [x]"
    by (rule insort_key_last)
  with Cons show ?case by simp
qed

lemma activityAt_increasing:
  "sorted_wrt (\<lambda>a b. timestamp a < timestamp b) (map activityAt [i..j])"
  by (simp add: sorted_wrt_map activityAt_def)

lemma addActivity_full:
  "length (activities s) = 100 \<Longrightarrow> activities (addActivity a s) = tl (activities s) @ [a]"
  by (cases "activities s") (simp_all add: addActivity_def Let_def)

lemma read_reverses:
  "activities (snd (getRecentActivities 10 fullHistory)) = rev (map activityAt [1..100])"
  using sort_newest_first[OF activityAt_increasing, of 1 100]
  by (simp add: getRecentActivities_def fullHistory_def Let_def)

lemma upto_1_100: "[1..100] = (1::int) # [2..100]" "[1..100] = [1..99] @ [100::int]"
  "[2..101] = [2..100] @ [101::int]"
  by (simp_all add: upto_rec1 upto_rec2)

text \<open>
  Claim C9 at a history at capacity. Without a read in between, appending a record
  evicts the oldest (timestamp 1). A read sorts the stored list itself, newest first,
  so it changes the buffer; appending after the read evicts the first element of that
  list, which is the newest record (timestamp 100), and the oldest stays.
\<close>

theorem read_then_add_evicts_newest:
  "activities (addActivity (activityAt 101) fullHistory) = map activityAt [2..101]
   \<and> activities (snd (getRecentActivities 10 fullHistory)) = rev (activities fullHistory)
   \<and> activities (addActivity (activityAt 101) (snd (getRecentActivities 10 fullHistory)))
       = rev (map activityAt [1..99]) @ [activityAt 101]"
proof (intro conjI)
  have "length (activities fullHistory) = 100" by (simp add: fullHistory_def)
  then have "activities (addActivity (activityAt 101) fullHistory)
               = tl (activities fullHistory) @ [activityAt 101]"
    by (rule addActivity_full)
  then show "activities (addActivity (activityAt 101) fullHistory) = map activityAt [2..101]"
    by (simp add: fullHistory_def upto_1_100(1) upto_1_100(3))
  show "activities (snd (getRecentActivities 10 fullHistory)) = rev (activities fullHistory)"
    using read_reverses by (simp add: fullHistory_def)
  have "length (activities (snd (getRecentActivities 10 fullHistory))) = 100"
    using read_reverses by simp
  then have "activities (addActivity (activityAt 101) (snd (getRecentActivities 10 fullHistory)))
               = tl (activities (snd (getRecentActivities 10 fullHistory))) @ [activityAt 101]"
    by (rule addActivity_full)
  then show "activities (addActivity (activityAt 101) (snd (getRecentActivities 10 fullHistory)))
       = rev (map activityAt [1..99]) @ [activityAt 101]"
    using read_reverses by (simp add: upto_1_100(2))
qed


lemmas engine_eval = startBegin_def stop_def startResume_def setInterval_def clearInterval_def
  timerFires_def runAutonomousCycle_def handleMentions_def handleTimelineEngagement_def
  addActivity_def timelineRead_def newService_def defaultConfig_def quietCycle_def stampAt_def
  stoppedDuringFirstCycle_def Let_def

text \<open>
  Claim C5 with \<open>stop()\<close> called during the first cycle that \<open>start\<close> runs. \<open>stop\<close> finds
  no timer to clear; when the cycle has finished, the rest of \<open>start\<close> arms the timer.
  The engine is then not running with timer 1 armed, a further \<open>stop()\<close> returns at its
  \<open>isRunning\<close> check and changes nothing, and when the timer fires a new cycle runs and
  appends a record (timestamp 2) after the one of the first cycle (timestamp 1).
\<close>

theorem stop_during_first_cycle_leaves_timer:
  "snd (startBegin defaultConfig (newService 0))
   \<and> \<not> isRunning stoppedDuringFirstCycle
   \<and> intervalId stoppedDuringFirstCycle = Some 1
   \<and> map fst (armedTimers stoppedDuringFirstCycle) = [1]
   \<and> stop stoppedDuringFirstCycle = stoppedDuringFirstCycle
   \<and> map timestamp (activities stoppedDuringFirstCycle) = [1]
   \<and> map timestamp (activities (timerFires 1 (quietCycle 2) stoppedDuringFirstCycle)) = [1, 2]"
  by (simp add: engine_eval)

section \<open>Properties of the generation chain\<close>

lemma length_trim_le: "length (trim s) \<le> length s"
proof -
  have "length (dropWhile isWhiteSpace (rev (dropWhile isWhiteSpace s)))
          \<le> length (rev (dropWhile isWhiteSpace s))"
    by (rule length_dropWhile_le)
  also have "\<dots> \<le> length s"
    by (simp add: length_dropWhile_le)
  finally show ?thesis by (simp add: trim_def)
qed

lemma lastIndexOf_le:
  assumes p: "0 \<le> position"
  shows "lastIndexOf s c position \<le> position"
proof -
  have mp: "max position 0 = position" using p by simp
  let ?found = "filter (\<lambda>i. s ! i = c) [0 ..< min (nat position + 1) (length s)]"
  have eq: "lastIndexOf s c position = (if ?found = [] then - 1 else int (last ?found))"
    unfolding lastIndexOf_def mp Let_def by (rule refl)
  show ?thesis
  proof (cases "?found = []")
    case True
    with eq p show ?thesis by simp
  next
    case False
    then have "last ?found \<in> set ?found" by (rule last_in_set)
    then have "last ?found < nat position + 1" by simp
    then have "int (last ?found) \<le> position" using p by linarith
    with eq False show ?thesis by simp
  qed
qed

lemma applyLengthLimit_le:
  assumes "3 \<le> cap"
  shows "int (length (applyLengthLimit t cap)) \<le> cap"
proof (cases "int (length t) > cap")
  case False
  then show ?thesis by (simp add: applyLengthLimit_def)
next
  case True
  define cut where "cut = (if (of_int (lastIndexOf t 32 (cap - 3)) :: rat) > of_int cap * (7 / 10)
                            then lastIndexOf t 32 (cap - 3) else cap - 3)"
  have "lastIndexOf t 32 (cap - 3) \<le> cap - 3"
    using assms by (intro lastIndexOf_le) simp
  then have cut: "cut \<le> cap - 3" by (simp add: cut_def)
  have "length (trim (substring0 t cut)) \<le> length (substring0 t cut)"
    by (rule length_trim_le)
  also have "\<dots> \<le> nat cut" by (simp add: substring0_def)
  finally have "int (length (trim (substring0 t cut))) \<le> cap - 3"
    using cut assms by linarith
  moreover have "applyLengthLimit t cap = trim (substring0 t cut) @ js ''...''"
    using True by (simp add: applyLengthLimit_def Let_def cut_def)
  ultimately show ?thesis by (simp add: js_def)
qed

lemma applyLengthLimit_id: "int (length t) \<le> cap \<Longrightarrow> applyLengthLimit t cap = t"
  by (simp add: applyLengthLimit_def)

lemma generateFallbackContent_le:
  assumes "3 \<le> maxLength"
  shows "int (length (generateFallbackContent topic ct maxLength pick)) \<le> maxLength"
  using assms by (simp add: generateFallbackContent_def Let_def substring0_def js_def)

lemma noGeneratedText_Inr: "noGeneratedText data = Inr d \<Longrightarrow> data = JStr d"
  by (auto simp: noGeneratedText_def split: if_splits json.splits)

lemma generateWithHuggingFace_Inr:
  assumes "generateWithHuggingFace hf pick topic ct maxLength = Inr t"
  shows "int (length t) \<le> maxLength \<or> callModels hf = Inr (JStr t)"
proof -
  from assms obtain data where data: "callModels hf = Inr data"
    by (auto simp: generateWithHuggingFace_def split: sum.splits)
  from assms data obtain g where g: "extractGeneratedText data = Inr g"
    by (auto simp: generateWithHuggingFace_def split: sum.splits)
  show ?thesis
  proof (cases "truthy g")
    case False
    with assms data g have "noGeneratedText data = Inr t"
      by (simp add: generateWithHuggingFace_def)
    then show ?thesis using data by (simp add: noGeneratedText_Inr)
  next
    case True
    with assms data g obtain generatedText where s: "g = JStr generatedText"
      by (auto simp: generateWithHuggingFace_def split: json.splits)
    define t1 where "t1 = (if shouldUseFallback generatedText (min maxLength 280)
                           then generateFallbackContent topic ct (min maxLength 280) pick
                           else trim (stripQuotes (stripLabel generatedText)))"
    define t2 where "t2 = applyLengthLimit t1 (min maxLength 280)"
    define t3 where "t3 = (if int (length t2) > maxLength then substring0 t2 maxLength else t2)"
    have "generateWithHuggingFace hf pick topic ct maxLength
            = (if t3 \<noteq> [] then Inr t3 else noGeneratedText data)"
      using data g True s
      by (simp add: generateWithHuggingFace_def Let_def t1_def t2_def t3_def)
    with assms have r: "(if t3 \<noteq> [] then Inr t3 else noGeneratedText data) = Inr t"
      by simp
    show ?thesis
    proof (cases "t3 = []")
      case True
      with r have "noGeneratedText data = Inr t" by simp
      then show ?thesis using data by (simp add: noGeneratedText_Inr)
    next
      case False
      with r have "t = t3" by simp
      moreover have "int (length t3) \<le> maxLength"
      proof (cases "int (length t2) > maxLength")
        case True
        then have "t3 = take (nat maxLength) t2" by (simp add: t3_def substring0_def)
        with False have "0 < maxLength" by (cases "0 < maxLength") auto
        then show ?thesis using \<open>t3 = take (nat maxLength) t2\<close> by simp
      next
        case False
        then show ?thesis by (simp add: t3_def)
      qed
      ultimately show ?thesis by simp
    qed
  qed
qed

lemma generateWithOpenRouter_le:
  assumes "3 \<le> maxLength" and "generateWithOpenRouter response maxLength = Inr t"
  shows "int (length t) \<le> maxLength"
proof -
  from assms(2) obtain x where "t = applyLengthLimit x maxLength"
    by (auto simp: generateWithOpenRouter_def split: sum.splits prod.splits if_splits option.splits json.splits)
  then show ?thesis using assms(1) by (simp add: applyLengthLimit_le)
qed

lemma template_min_length:
  "t \<in> set (templatesFor ct topic) \<Longrightarrow> 3 \<le> length t"
  by (cases ct)
     (auto simp: templatesFor_def tweetTemplates_def threadTemplates_def replyTemplates_def
        memeTemplates_def js_def)

lemma templatesFor_nonempty: "templatesFor ct topic \<noteq> []"
  by (cases ct)
     (simp_all add: templatesFor_def tweetTemplates_def threadTemplates_def replyTemplates_def
        memeTemplates_def)

lemma picked_template:
  "templatesFor ct topic ! (pick mod length (templatesFor ct topic)) \<in> set (templatesFor ct topic)"
  using templatesFor_nonempty[of ct topic] by (intro nth_mem) simp

lemma picked_min_length:
  "3 \<le> length (templatesFor ct topic ! (pick mod length (templatesFor ct topic)))"
  using picked_template by (rule template_min_length)

lemma generateFallbackContent_nonempty: "generateFallbackContent topic ct maxLength pick \<noteq> []"
  using picked_min_length[of ct topic pick]
  by (auto simp: generateFallbackContent_def Let_def js_def)

lemma generateFallbackContent_small:
  assumes "maxLength < 3"
  shows "generateFallbackContent topic ct maxLength pick = js ''...''"
  using picked_min_length[of ct topic pick] assms
  by (simp add: generateFallbackContent_def Let_def substring0_def)

lemma dots_length: "length (js ''...'') = 3"
  by (simp add: js_def)

lemma applyLengthLimit_dots:
  assumes "0 < cap" and "cap < 3"
  shows "applyLengthLimit (js ''...'') cap = js ''...''"
proof -
  have gt: "int (length (js ''...'')) > cap" using assms by (simp add: js_def)
  have mp: "max (cap - 3) 0 = 0" using assms by simp
  have li: "lastIndexOf (js ''...'') 32 (cap - 3) = - 1"
    unfolding lastIndexOf_def mp by (simp add: js_def Let_def)
  have r: "\<not> (of_int (- 1) :: rat) > of_int cap * (7 / 10)"
    using assms by simp
  have s: "trim (substring0 (js ''...'') (cap - 3)) = []"
    using assms by (simp add: substring0_def trim_def)
  show ?thesis
    unfolding applyLengthLimit_def Let_def using gt r by (simp add: li s)
qed

lemma hf_fallback:
  assumes data: "callModels hf = Inr data"
    and g: "extractGeneratedText data = Inr (JStr g)"
    and ne: "g \<noteq> []"
    and fb: "shouldUseFallback g (min maxLength 280)"
    and m: "0 < maxLength"
  shows "generateWithHuggingFace hf pick topic ct maxLength =
           Inr (substring0 (generateFallbackContent topic ct (min maxLength 280) pick) maxLength)"
proof -
  define F where "F = generateFallbackContent topic ct (min maxLength 280) pick"
  define t2 where "t2 = applyLengthLimit F (min maxLength 280)"
  define t3 where "t3 = (if int (length t2) > maxLength then substring0 t2 maxLength else t2)"
  have unfold: "generateWithHuggingFace hf pick topic ct maxLength
                  = (if t3 \<noteq> [] then Inr t3 else noGeneratedText data)"
    using data g ne fb
    by (simp add: generateWithHuggingFace_def Let_def truthy_def F_def t2_def t3_def)
  have Fne: "F \<noteq> []" unfolding F_def by (rule generateFallbackContent_nonempty)
  have t3: "t3 = substring0 F maxLength \<and> t3 \<noteq> []"
  proof (cases "3 \<le> maxLength")
    case True
    then have e: "3 \<le> min maxLength 280" by simp
    have lF: "int (length F) \<le> min maxLength 280"
      unfolding F_def using e by (rule generateFallbackContent_le)
    then have "t2 = F" by (simp add: t2_def applyLengthLimit_id)
    moreover have "int (length F) \<le> maxLength" using lF by simp
    ultimately show ?thesis using Fne by (simp add: t3_def substring0_def)
  next
    case False
    with m have small: "min maxLength 280 = maxLength" "maxLength < 3" by simp_all
    then have F: "F = js ''...''"
      by (simp add: F_def generateFallbackContent_small)
    have "t2 = js ''...''"
      using m small by (simp add: t2_def F applyLengthLimit_dots)
    then have "t3 = substring0 (js ''...'') maxLength"
      using small by (simp add: t3_def dots_length)
    moreover have "substring0 (js ''...'') maxLength \<noteq> []"
      using m by (simp add: substring0_def js_def)
    ultimately show ?thesis using F by simp
  qed
  from t3 have a: "t3 = substring0 F maxLength" and b: "t3 \<noteq> []" by blast+
  have "(if t3 \<noteq> [] then Inr t3 else noGeneratedText data) = Inr t3"
    using b by simp
  with unfold have "generateWithHuggingFace hf pick topic ct maxLength = Inr t3"
    by (rule trans)
  then show ?thesis unfolding a F_def .
qed

lemma echo_isPrompt: "shouldUseFallback (js ''Generate a tweet about Bitcoin'') (min 280 280)"
  by (simp add: shouldUseFallback_def containsPromptKeywords_def promptKeywords_def
      toLowerCase_def lowerUnits_def lowerUnit_def js_def)

lemma generated_callModels:
  "callModels (\<lambda>model. Inr (200, generated t)) = Inr (generated t)"
  by (simp add: callModels_def tryNextModel_def generated_def truthy_def)

lemma generated_extract: "t \<noteq> [] \<Longrightarrow> extractGeneratedText (generated t) = Inr (JStr t)"
  by (simp add: extractGeneratedText_def generated_def getProp_def truthy_def js_def)

lemma bitcoin_tweets:
  "t \<in> set (tweetTemplates (js ''Bitcoin'')) \<Longrightarrow>
   includesStr t (js ''Bitcoin'') \<and> int (length t) \<le> 280 \<and> \<not> includesStr t (js ''Generate'')"
  by (auto simp: tweetTemplates_def js_def)

lemma bitcoin_fallback:
  "generateFallbackContent (js ''Bitcoin'') Tweet 280 p \<in> set (tweetTemplates (js ''Bitcoin''))"
proof -
  let ?c = "templatesFor Tweet (js ''Bitcoin'') ! (p mod length (templatesFor Tweet (js ''Bitcoin'')))"
  have c: "?c \<in> set (tweetTemplates (js ''Bitcoin''))"
    using picked_template[of Tweet "js ''Bitcoin''" p] by (simp add: templatesFor_def)
  then have "int (length ?c) \<le> 280" using bitcoin_tweets by blast
  then have "generateFallbackContent (js ''Bitcoin'') Tweet 280 p = ?c"
    by (simp add: generateFallbackContent_def Let_def)
  with c show ?thesis by simp
qed

lemma echo_result:
  "generateTextContent hfOnly (echoWorld p q) (js ''Bitcoin'') Tweet tone 280
     = Inr (generateFallbackContent (js ''Bitcoin'') Tweet 280 p)"
proof -
  have k: "huggingFaceApiKey hfOnly \<noteq> []" by (simp add: hfOnly_def js_def)
  have ne: "js ''Generate a tweet about Bitcoin'' \<noteq> []" by (simp add: js_def)
  have "generateWithHuggingFace (huggingFace (echoWorld p q)) (hfPick (echoWorld p q))
          (js ''Bitcoin'') Tweet 280
        = Inr (substring0 (generateFallbackContent (js ''Bitcoin'') Tweet (min 280 280) p) 280)"
    unfolding echoWorld_def aiWorld.simps
    by (rule hf_fallback[OF generated_callModels generated_extract[OF ne] ne echo_isPrompt]) simp
  moreover have "int (length (generateFallbackContent (js ''Bitcoin'') Tweet 280 p)) \<le> 280"
    using bitcoin_fallback bitcoin_tweets by blast
  ultimately show ?thesis using k
    by (simp add: generateTextContent_def substring0_def)
qed

lemma js_append: "js a @ js b = js (a @ b)"
  by (simp add: js_def)

lemma long_lastSpace: "lastIndexOf (js ''aaaaaaaaaa bbbbbbbbbbb'') 32 17 = 10"
  by (simp add: lastIndexOf_def js_def Let_def upt_conv_Cons nth_Cons')

lemma long_cut: "trim (substring0 (js ''aaaaaaaaaa bbbbbbbbbbb'') 17) = js ''aaaaaaaaaa bbbbbb''"
  by (simp add: substring0_def trim_def isWhiteSpace_def js_def)

lemma long_over: "int (length (js ''aaaaaaaaaa bbbbbbbbbbb'')) > 20"
  by (simp add: js_def)

lemma long_limited: "applyLengthLimit (js ''aaaaaaaaaa bbbbbbbbbbb'') 20 = js ''aaaaaaaaaa bbbbbb...''"
proof -
  have c: "(20::int) - 3 = 17" by simp
  have r: "\<not> (of_int (10::int) :: rat) > of_int 20 * (7 / 10)" by simp
  show ?thesis
    by (simp only: applyLengthLimit_def Let_def long_over if_True c long_lastSpace r if_False
        long_cut js_append append.simps)
qed

lemma long_kept: "\<not> shouldUseFallback (js ''aaaaaaaaaa bbbbbbbbbbb'') (min 20 280)"
  by (simp add: shouldUseFallback_def containsPromptKeywords_def promptKeywords_def
      toLowerCase_def lowerUnits_def lowerUnit_def js_def)

lemma long_cleaned:
  "trim (stripQuotes (stripLabel (js ''aaaaaaaaaa bbbbbbbbbbb''))) = js ''aaaaaaaaaa bbbbbbbbbbb''"
  by (simp add: trim_def stripQuotes_def stripLabel_def afterLabel_def roleLabels_def
      isLineTerminator_def isWhiteSpace_def isQuote_def toLowerCase_def lowerUnits_def lowerUnit_def js_def)

lemma long_hf:
  "generateWithHuggingFace (huggingFace longWorld) (hfPick longWorld) (js ''Bitcoin'') Tweet 20
     = Inr (js ''aaaaaaaaaa bbbbbb...'')"
proof -
  have ne: "js ''aaaaaaaaaa bbbbbbbbbbb'' \<noteq> []" by (simp add: js_def)
  have d: "callModels (huggingFace longWorld) = Inr (generated (js ''aaaaaaaaaa bbbbbbbbbbb''))"
    by (simp add: longWorld_def generated_callModels)
  have m: "min (20::int) 280 = 20" by simp
  have l: "\<not> int (length (js ''aaaaaaaaaa bbbbbb...'')) > 20" "js ''aaaaaaaaaa bbbbbb...'' \<noteq> []"
    by (simp_all add: js_def)
  show ?thesis
    unfolding generateWithHuggingFace_def d
    using l long_kept
    by (simp add: generated_extract[OF ne] truthy_def ne Let_def long_cleaned m long_limited)
qed

lemma long_result:
  "generateTextContent hfOnly longWorld (js ''Bitcoin'') Tweet (js ''confident,trader'') 20
     = Inr (js ''aaaaaaaaaa bbbbbb...'')"
proof -
  have "huggingFaceApiKey hfOnly \<noteq> []" by (simp add: hfOnly_def js_def)
  then show ?thesis unfolding generateTextContent_def by (simp add: long_hf)
qed





text \<open>
  Claim C3, as the code has it. When at least one provider key is configured and the
  requested \<open>maxLength\<close> is at least 3, the returned string has at most \<open>maxLength\<close>
  units, whatever the providers answer, with one exception: a Hugging Face body that is
  itself a string is returned as it is.
\<close>

theorem generated_length_bounded:
  assumes keys: "huggingFaceApiKey svc \<noteq> [] \<or> openRouterApiKey svc \<noteq> []"
    and m: "3 \<le> maxLength"
    and r: "generateTextContent svc w topic ct tone maxLength = Inr t"
  shows "int (length t) \<le> maxLength
       \<or> (huggingFaceApiKey svc \<noteq> [] \<and> callModels (huggingFace w) = Inr (JStr t))"
proof (cases "huggingFaceApiKey svc \<noteq> []")
  case True
  show ?thesis
  proof (cases "generateWithHuggingFace (huggingFace w) (hfPick w) topic ct maxLength")
    case (Inr t')
    with r True have "t' = t" by (simp add: generateTextContent_def)
    with Inr generateWithHuggingFace_Inr[of "huggingFace w" "hfPick w" topic ct maxLength t]
    show ?thesis using True by simp
  next
    case (Inl e)
    show ?thesis
    proof (cases "openRouterApiKey svc \<noteq> []")
      case False
      with r True Inl have "t = generateFallbackContent topic ct maxLength (catchPick w)"
        by (simp add: generateTextContent_def)
      then show ?thesis using m by (simp add: generateFallbackContent_le)
    next
      case orKey: True
      show ?thesis
      proof (cases "generateWithOpenRouter (openRouter w) maxLength")
        case (Inr t')
        with r True Inl orKey have "t' = t" by (simp add: generateTextContent_def)
        with Inr m show ?thesis by (simp add: generateWithOpenRouter_le)
      next
        case Inl2: (Inl e')
        with r True Inl orKey have "t = generateFallbackContent topic ct maxLength (catchPick w)"
          by (simp add: generateTextContent_def)
        then show ?thesis using m by (simp add: generateFallbackContent_le)
      qed
    qed
  qed
next
  case False
  with keys have orKey: "openRouterApiKey svc \<noteq> []" by simp
  show ?thesis
  proof (cases "generateWithOpenRouter (openRouter w) maxLength")
    case (Inr t')
    with r False orKey have "t' = t" by (simp add: generateTextContent_def)
    with Inr m show ?thesis by (simp add: generateWithOpenRouter_le)
  next
    case (Inl e')
    with r False orKey have "t = generateFallbackContent topic ct maxLength (catchPick w)"
      by (simp add: generateTextContent_def)
    then show ?thesis using m by (simp add: generateFallbackContent_le)
  qed
qed

theorem generated_length_bounded_witness:
  "huggingFaceApiKey hfOnly \<noteq> []
   \<and> (3::int) \<le> 20
   \<and> generateTextContent hfOnly longWorld (js ''Bitcoin'') Tweet (js ''confident,trader'') 20
       = Inr (js ''aaaaaaaaaa bbbbbb...'')
   \<and> int (length (js ''aaaaaaaaaa bbbbbb...'')) \<le> 20"
proof -
  have k: "huggingFaceApiKey hfOnly \<noteq> [] \<or> openRouterApiKey hfOnly \<noteq> []"
    by (simp add: hfOnly_def js_def)
  have m: "(3::int) \<le> 20" by simp
  have r: "generateTextContent hfOnly longWorld (js ''Bitcoin'') Tweet (js ''confident,trader'') 20
       = Inr (js ''aaaaaaaaaa bbbbbb...'')"
    by (rule long_result)
  have "callModels (huggingFace longWorld) = Inr (generated (js ''aaaaaaaaaa bbbbbbbbbbb''))"
    by (simp add: longWorld_def generated_callModels)
  then have "callModels (huggingFace longWorld) \<noteq> Inr (JStr (js ''aaaaaaaaaa bbbbbb...''))"
    by (simp add: generated_def)
  with generated_length_bounded[OF k m r]
  have "int (length (js ''aaaaaaaaaa bbbbbb...'')) \<le> 20" by blast
  moreover have "huggingFaceApiKey hfOnly \<noteq> []" by (simp add: hfOnly_def js_def)
  ultimately show ?thesis using m r by blast
qed

text \<open>
  Claim C3 as stated fails: with no provider key configured and \<open>maxLength = 50\<close> the
  result is the fixed placeholder, which has 107 units.
\<close>

theorem placeholder_exceeds_maxLength_counterexample:
  "generateTextContent noKeys (echoWorld 0 0) (js ''Bitcoin'') Tweet (js ''confident,trader'') 50
     = Inr noKeysPlaceholder
   \<and> length noKeysPlaceholder = 107"
  by (simp add: generateTextContent_def noKeys_def noKeysPlaceholder_def js_def)

lemma startsWith_append: "startsWith (p @ s) p"
  by (induction p) simp_all

lemma startsWith_split: "startsWith s p \<Longrightarrow> \<exists>suf. s = p @ suf"
  by (induction s p rule: startsWith.induct) auto

lemma includesStr_here: "includesStr (p @ s) p"
  using startsWith_append[of p s] by (cases "p @ s") auto

lemma includesStr_later: "includesStr s p \<Longrightarrow> includesStr (pre @ s) p"
  by (induction pre) simp_all

lemma includesStr_split: "includesStr s p \<Longrightarrow> \<exists>pre suf. s = pre @ p @ suf"
proof (induction s)
  case Nil
  then show ?case by simp
next
  case (Cons c cs)
  from Cons.prems have "startsWith (c # cs) p \<or> includesStr cs p" by simp
  then show ?case
  proof
    assume "startsWith (c # cs) p"
    then obtain suf where "c # cs = p @ suf" using startsWith_split by blast
    then have "c # cs = [] @ p @ suf" by simp
    then show ?thesis by blast
  next
    assume "includesStr cs p"
    then obtain pre suf where "cs = pre @ p @ suf" using Cons.IH by blast
    then have "c # cs = (c # pre) @ p @ suf" by simp
    then show ?thesis by blast
  qed
qed

lemma includesStr_end: "includesStr (pre @ p) p"
  using includesStr_later[OF includesStr_here[of p "[]"], of pre] by simp

lemma template_includes_topic:
  "tpl \<in> set (templatesFor ct topic) \<Longrightarrow> includesStr tpl topic"
  by (cases ct;
      simp only: templatesFor_def contentType.case tweetTemplates_def threadTemplates_def
        replyTemplates_def memeTemplates_def list.set insert_iff empty_iff;
      elim disjE FalseE; hypsubst;
      rule includesStr_here includesStr_end
          includesStr_later[OF includesStr_here]
          includesStr_later[OF includesStr_later[OF includesStr_here]]
          includesStr_later[OF includesStr_later[OF includesStr_later[OF includesStr_here]]]
          includesStr_later[OF includesStr_later[OF includesStr_later[OF
            includesStr_later[OF includesStr_here]]]])

lemma toLowerCase_Nil: "toLowerCase s = [] \<Longrightarrow> s = []"
  by (cases s) (auto simp: toLowerCase_def lowerUnits_def split: if_splits)

lemma promptKeywords_nonempty: "k \<in> set promptKeywords \<Longrightarrow> k \<noteq> []"
  by (auto simp: promptKeywords_def js_def)

lemma leak_shouldUseFallback:
  assumes "(\<exists>k\<in>set promptKeywords. includesStr (toLowerCase g) (toLowerCase k))
           \<or> of_int cap * (12 / 10) < (of_nat (length g) :: rat)"
  shows "shouldUseFallback g cap"
  using assms by (simp add: shouldUseFallback_def containsPromptKeywords_def list_ex_iff)

lemma leak_nonempty:
  assumes "(\<exists>k\<in>set promptKeywords. includesStr (toLowerCase g) (toLowerCase k))
           \<or> of_int cap * (12 / 10) < (of_nat (length g) :: rat)"
    and "0 \<le> cap"
  shows "g \<noteq> []"
proof
  assume e: "g = []"
  from assms(1) show False
  proof
    assume "\<exists>k\<in>set promptKeywords. includesStr (toLowerCase g) (toLowerCase k)"
    then obtain k where k: "k \<in> set promptKeywords"
      and i: "includesStr (toLowerCase g) (toLowerCase k)" by blast
    from i e have "toLowerCase k = []" by (simp add: toLowerCase_def)
    then have "k = []" by (rule toLowerCase_Nil)
    with promptKeywords_nonempty[OF k] show False by simp
  next
    assume "of_int cap * (12 / 10) < (of_nat (length g) :: rat)"
    with e have "(of_int cap :: rat) * (12 / 10) < 0" by simp
    then have "(of_int cap :: rat) < 0" by (simp add: mult_less_0_iff)
    with assms(2) show False by simp
  qed
qed

lemma echo_leak:
  "js ''Generate'' \<in> set promptKeywords
   \<and> includesStr (toLowerCase (js ''Generate a tweet about Bitcoin''))
        (toLowerCase (js ''Generate''))"
  by (simp add: promptKeywords_def toLowerCase_def lowerUnits_def lowerUnit_def js_def)

lemma echo_small:
  assumes "0 < maxLength"
  shows "generateTextContent hfOnly (echoWorld p q) topic ct tone maxLength
           = Inr (substring0 (generateFallbackContent topic ct (min maxLength 280) p) maxLength)"
proof -
  have k: "huggingFaceApiKey hfOnly \<noteq> []" by (simp add: hfOnly_def js_def)
  have ne: "js ''Generate a tweet about Bitcoin'' \<noteq> []" by (simp add: js_def)
  have fb: "shouldUseFallback (js ''Generate a tweet about Bitcoin'') (min maxLength 280)"
    using echo_leak by (intro leak_shouldUseFallback) blast
  have "generateWithHuggingFace (huggingFace (echoWorld p q)) (hfPick (echoWorld p q))
          topic ct maxLength
        = Inr (substring0 (generateFallbackContent topic ct (min maxLength 280) p) maxLength)"
    unfolding echoWorld_def aiWorld.simps
    by (rule hf_fallback[OF generated_callModels generated_extract[OF ne] ne fb assms])
  then show ?thesis using k by (simp add: generateTextContent_def)
qed

text \<open>
  Claim C8, as the code has it. Hugging Face is configured and the text it returned
  contains an instruction phrase (in any case) or is longer than 1.2 times the
  effective cap \<open>min(maxLength, 280)\<close>, and \<open>maxLength\<close> is at least 3. Then the
  provider text is discarded and the result is made of the template that the random
  source draws from the table of the content type, a string in which the topic stands
  between a fixed prefix and a fixed suffix: the result is that template when it fits
  the effective cap, and otherwise its first \<open>cap - 3\<close> units followed by three dots,
  in which the topic may be cut or missing; it has at most \<open>maxLength\<close> units.
  For the provider text \<open>Generate a tweet about Bitcoin\<close>, topic \<open>Bitcoin\<close>, type tweet
  and \<open>maxLength = 280\<close>, whatever template the random source draws, the result is one
  of the tweet templates for \<open>Bitcoin\<close>: it contains \<open>Bitcoin\<close>, has at most 280 units
  and does not contain \<open>Generate\<close>.
\<close>

theorem echoed_prompt_replaced_by_template:
  assumes key: "huggingFaceApiKey svc \<noteq> []"
    and data: "callModels (huggingFace w) = Inr data"
    and g: "extractGeneratedText data = Inr (JStr g)"
    and leak: "(\<exists>k\<in>set promptKeywords. includesStr (toLowerCase g) (toLowerCase k))
               \<or> of_int (min maxLength 280) * (12 / 10) < (of_nat (length g) :: rat)"
    and three: "3 \<le> maxLength"
  shows "(\<exists>tpl\<in>set (templatesFor ct topic).
                tpl = templatesFor ct topic ! (hfPick w mod length (templatesFor ct topic))
              \<and> (\<exists>pre suf. tpl = pre @ topic @ suf)
              \<and> includesStr tpl topic
              \<and> generateTextContent svc w topic ct tone maxLength
                  = Inr (if int (length tpl) \<le> min maxLength 280 then tpl
                         else substring0 tpl (min maxLength 280 - 3) @ js ''...''))
       \<and> (\<exists>t. generateTextContent svc w topic ct tone maxLength = Inr t
              \<and> int (length t) \<le> maxLength)
       \<and> (\<exists>t\<in>set (tweetTemplates (js ''Bitcoin'')).
            generateTextContent hfOnly (echoWorld p q) (js ''Bitcoin'') Tweet tone 280 = Inr t
          \<and> includesStr t (js ''Bitcoin'')
          \<and> int (length t) \<le> 280
          \<and> \<not> includesStr t (js ''Generate''))"
proof -
  let ?F = "generateFallbackContent topic ct (min maxLength 280) (hfPick w)"
  let ?tpl = "templatesFor ct topic ! (hfPick w mod length (templatesFor ct topic))"
  have fb: "shouldUseFallback g (min maxLength 280)"
    using leak by (rule leak_shouldUseFallback)
  have r: "generateTextContent svc w topic ct tone maxLength = Inr (substring0 ?F maxLength)"
  proof -
    from three have m: "0 < maxLength" by simp
    then have "0 \<le> min maxLength 280" by simp
    with leak have ne: "g \<noteq> []" by (rule leak_nonempty)
    have "generateWithHuggingFace (huggingFace w) (hfPick w) topic ct maxLength
            = Inr (substring0 ?F maxLength)"
      by (rule hf_fallback[OF data g ne fb m])
    then show ?thesis using key by (simp add: generateTextContent_def)
  qed
  have big: "(\<exists>tpl\<in>set (templatesFor ct topic).
                tpl = ?tpl
              \<and> (\<exists>pre suf. tpl = pre @ topic @ suf)
              \<and> includesStr tpl topic
              \<and> generateTextContent svc w topic ct tone maxLength
                  = Inr (if int (length tpl) \<le> min maxLength 280 then tpl
                         else substring0 tpl (min maxLength 280 - 3) @ js ''...''))
          \<and> (\<exists>t. generateTextContent svc w topic ct tone maxLength = Inr t
                 \<and> int (length t) \<le> maxLength)"
  proof -
    from three have e: "3 \<le> min maxLength 280" by simp
    then have "int (length ?F) \<le> min maxLength 280" by (rule generateFallbackContent_le)
    then have l: "int (length ?F) \<le> maxLength" by simp
    then have "substring0 ?F maxLength = ?F" by (simp add: substring0_def)
    with r have res: "generateTextContent svc w topic ct tone maxLength = Inr ?F" by simp
    have flip: "(if c < n then A else B) = (if n \<le> c then B else A)"
      for c n :: int and A B :: jsstring
      by auto
    have F: "?F = (if int (length ?tpl) \<le> min maxLength 280 then ?tpl
                   else substring0 ?tpl (min maxLength 280 - 3) @ js ''...'')"
      unfolding generateFallbackContent_def Let_def by (rule flip)
    have mem: "?tpl \<in> set (templatesFor ct topic)" by (rule picked_template)
    then have inc: "includesStr ?tpl topic" by (rule template_includes_topic)
    then have sp: "\<exists>pre suf. ?tpl = pre @ topic @ suf" by (rule includesStr_split)
    from res F have "generateTextContent svc w topic ct tone maxLength
                  = Inr (if int (length ?tpl) \<le> min maxLength 280 then ?tpl
                         else substring0 ?tpl (min maxLength 280 - 3) @ js ''...'')"
      by simp
    with mem inc sp res l show ?thesis by blast
  qed
  have scenario: "\<exists>t\<in>set (tweetTemplates (js ''Bitcoin'')).
            generateTextContent hfOnly (echoWorld p q) (js ''Bitcoin'') Tweet tone 280 = Inr t
          \<and> includesStr t (js ''Bitcoin'')
          \<and> int (length t) \<le> 280
          \<and> \<not> includesStr t (js ''Generate'')"
    using echo_result[of p q tone] bitcoin_fallback[of p] bitcoin_tweets by blast
  from big scenario show ?thesis by blast
qed

theorem echoed_prompt_replaced_by_template_witness:
  "huggingFaceApiKey hfOnly \<noteq> []
   \<and> callModels (huggingFace (echoWorld 7 0)) = Inr (generated (js ''Generate a tweet about Bitcoin''))
   \<and> extractGeneratedText (generated (js ''Generate a tweet about Bitcoin''))
       = Inr (JStr (js ''Generate a tweet about Bitcoin''))
   \<and> js ''Generate'' \<in> set promptKeywords
   \<and> includesStr (toLowerCase (js ''Generate a tweet about Bitcoin''))
        (toLowerCase (js ''Generate''))
   \<and> (3::int) \<le> 280
   \<and> generateTextContent hfOnly (echoWorld 7 0) (js ''Bitcoin'') Tweet (js ''confident,trader'') 280
       = Inr ([55357, 56520] @ js '' Bitcoin analysis coming soon! #market'')
   \<and> includesStr ([55357, 56520] @ js '' Bitcoin analysis coming soon! #market'') (js ''Bitcoin'')"
proof -
  have k: "huggingFaceApiKey hfOnly \<noteq> []" by (simp add: hfOnly_def js_def)
  have ne: "js ''Generate a tweet about Bitcoin'' \<noteq> []" by (simp add: js_def)
  have d: "callModels (huggingFace (echoWorld 7 0))
             = Inr (generated (js ''Generate a tweet about Bitcoin''))"
    by (simp add: echoWorld_def generated_callModels)
  have lk: "(\<exists>k\<in>set promptKeywords.
               includesStr (toLowerCase (js ''Generate a tweet about Bitcoin'')) (toLowerCase k))
            \<or> of_int (min 280 280) * (12 / 10)
                < (of_nat (length (js ''Generate a tweet about Bitcoin'')) :: rat)"
    using echo_leak by blast
  have p: "hfPick (echoWorld 7 0) = 7" by (simp add: echoWorld_def)
  have f: "templatesFor Tweet (js ''Bitcoin'') ! (7 mod length (templatesFor Tweet (js ''Bitcoin'')))
             = [55357, 56520] @ js '' Bitcoin analysis coming soon! #market''"
    by (simp add: templatesFor_def tweetTemplates_def js_def)
  have l: "int (length ([55357, 56520] @ js '' Bitcoin analysis coming soon! #market''))
             \<le> min 280 280"
    by (simp add: js_def)
  have three: "(3::int) \<le> 280" by simp
  from echoed_prompt_replaced_by_template[OF k d generated_extract[OF ne] lk three,
      of Tweet "js ''Bitcoin''" "js ''confident,trader''"]
  obtain tpl where
    t: "tpl = templatesFor Tweet (js ''Bitcoin'')
                ! (hfPick (echoWorld 7 0) mod length (templatesFor Tweet (js ''Bitcoin'')))"
    and i: "includesStr tpl (js ''Bitcoin'')"
    and r: "generateTextContent hfOnly (echoWorld 7 0) (js ''Bitcoin'') Tweet
              (js ''confident,trader'') 280
            = Inr (if int (length tpl) \<le> min 280 280 then tpl
                   else substring0 tpl (min 280 280 - 3) @ js ''...'')"
    by auto
  from t have tv: "tpl = [55357, 56520] @ js '' Bitcoin analysis coming soon! #market''"
    unfolding p f .
  from r l have "generateTextContent hfOnly (echoWorld 7 0) (js ''Bitcoin'') Tweet
              (js ''confident,trader'') 280
            = Inr ([55357, 56520] @ js '' Bitcoin analysis coming soon! #market'')"
    unfolding tv by (simp only: if_True)
  moreover from i
  have "includesStr ([55357, 56520] @ js '' Bitcoin analysis coming soon! #market'') (js ''Bitcoin'')"
    unfolding tv .
  ultimately show ?thesis
    using k d generated_extract[OF ne] echo_leak three by simp
qed

text \<open>
  Claim C8 as stated fails when the effective cap is shorter than the template. With
  the provider text \<open>Generate a tweet about Bitcoin\<close>, topic \<open>Bitcoin\<close>, type tweet, the
  first template drawn and \<open>maxLength = 10\<close>, the provider text is discarded and the
  result is the first seven units of the template and three dots, which do not contain
  \<open>Bitcoin\<close>; with \<open>maxLength = 2\<close> the result is two dots.
\<close>

theorem truncated_template_lacks_topic_counterexample:
  "huggingFaceApiKey hfOnly \<noteq> []
   \<and> callModels (huggingFace (echoWorld 0 0)) = Inr (generated (js ''Generate a tweet about Bitcoin''))
   \<and> extractGeneratedText (generated (js ''Generate a tweet about Bitcoin''))
       = Inr (JStr (js ''Generate a tweet about Bitcoin''))
   \<and> shouldUseFallback (js ''Generate a tweet about Bitcoin'') (min 10 280)
   \<and> generateTextContent hfOnly (echoWorld 0 0) (js ''Bitcoin'') Tweet (js ''confident,trader'') 10
       = Inr ([55357, 56960] @ js '' Bitc...'')
   \<and> \<not> includesStr ([55357, 56960] @ js '' Bitc...'') (js ''Bitcoin'')
   \<and> generateTextContent hfOnly (echoWorld 0 0) (js ''Bitcoin'') Tweet (js ''confident,trader'') 2
       = Inr (js ''..'')"
proof -
  have k: "huggingFaceApiKey hfOnly \<noteq> []" by (simp add: hfOnly_def js_def)
  have ne: "js ''Generate a tweet about Bitcoin'' \<noteq> []" by (simp add: js_def)
  have d: "callModels (huggingFace (echoWorld 0 0))
             = Inr (generated (js ''Generate a tweet about Bitcoin''))"
    by (simp add: echoWorld_def generated_callModels)
  have fb: "shouldUseFallback (js ''Generate a tweet about Bitcoin'') (min 10 280)"
    using echo_leak by (intro leak_shouldUseFallback) blast
  have f10: "generateFallbackContent (js ''Bitcoin'') Tweet (min 10 280) 0
               = [55357, 56960] @ js '' Bitc...''"
    by (simp add: generateFallbackContent_def templatesFor_def tweetTemplates_def substring0_def
        js_def Let_def)
  have c10: "substring0 ([55357, 56960] @ js '' Bitc...'') 10 = [55357, 56960] @ js '' Bitc...''"
    by (simp add: substring0_def js_def)
  have r10: "generateTextContent hfOnly (echoWorld 0 0) (js ''Bitcoin'') Tweet
               (js ''confident,trader'') 10 = Inr ([55357, 56960] @ js '' Bitc...'')"
    using echo_small[of 10 0 0 "js ''Bitcoin''" Tweet "js ''confident,trader''"]
    unfolding f10 c10 by simp
  have n: "\<not> includesStr ([55357, 56960] @ js '' Bitc...'') (js ''Bitcoin'')"
    by (simp add: js_def)
  have f2: "generateFallbackContent (js ''Bitcoin'') Tweet (min 2 280) 0 = js ''...''"
    by (rule generateFallbackContent_small) simp
  have c2: "substring0 (js ''...'') 2 = js ''..''"
    by (simp add: substring0_def js_def)
  have r2: "generateTextContent hfOnly (echoWorld 0 0) (js ''Bitcoin'') Tweet
               (js ''confident,trader'') 2 = Inr (js ''..'')"
    using echo_small[of 2 0 0 "js ''Bitcoin''" Tweet "js ''confident,trader''"]
    unfolding f2 c2 by simp
  from k d generated_extract[OF ne] fb r10 n r2 show ?thesis by blast
qed

end
